theory Spec2Isabelle
  imports Complex_Main
begin

section \<open>Navigation scenario: data model\<close>

text \<open>
  The scenario of \<^verbatim>\<open>vmas/scenarios/navigation.py\<close>. A batched tensor of shape
  \<open>(batch_dim,)\<close> is a list with one entry per environment, a tensor of shape
  \<open>(batch_dim, 2)\<close> a list of pairs. Floating-point numbers are modelled as reals.
\<close>

datatype error =
  ValidationError | AssertionError | AttributeError | IndexError
  | ZeroDivisionError | RuntimeError

type_synonym vec2 = "real \<times> real"

record navigation_config =
  n_agents :: int
  collisions :: bool
  world_spawning_x :: int
  world_spawning_y :: int
  enforce_bounds :: bool
  agents_with_same_goal :: int
  split_goals :: bool
  observe_all_goals :: bool
  lidar_range :: real
  agent_radius :: real
  comms_range :: real
  n_lidar_rays :: int
  shared_rew :: bool
  pos_shaping_factor :: real
  final_reward :: real
  agent_collision_penalty :: real

text \<open>The field defaults of \<^verbatim>\<open>BaseNavigationConfig\<close>.\<close>

definition BaseNavigationConfig_defaults :: navigation_config where
  "BaseNavigationConfig_defaults =
     \<lparr> n_agents = 4, collisions = True, world_spawning_x = 1, world_spawning_y = 1,
       enforce_bounds = False, agents_with_same_goal = 1, split_goals = False,
       observe_all_goals = False, lidar_range = 35 / 100, agent_radius = 1 / 10,
       comms_range = 0, n_lidar_rays = 12, shared_rew = True, pos_shaping_factor = 1,
       final_reward = 1 / 100, agent_collision_penalty = - 1 \<rparr>"

text \<open>
  A keyword argument of \<^verbatim>\<open>BaseNavigationConfig(**kwargs)\<close>: a value of the field's
  own type for one of the declared fields, a key that is no field of the model, or a
  declared field (named by its key) with a value that the model's validation refuses.
\<close>

datatype kwarg =
  KW_n_agents int
  | KW_collisions bool
  | KW_world_spawning_x int
  | KW_world_spawning_y int
  | KW_enforce_bounds bool
  | KW_agents_with_same_goal int
  | KW_split_goals bool
  | KW_observe_all_goals bool
  | KW_lidar_range real
  | KW_agent_radius real
  | KW_comms_range real
  | KW_n_lidar_rays int
  | KW_shared_rew bool
  | KW_pos_shaping_factor real
  | KW_final_reward real
  | KW_agent_collision_penalty real
  | KW_extra string
  | KW_ill_typed string

fun is_extra :: "kwarg \<Rightarrow> bool" where
  "is_extra (KW_extra k) = True"
| "is_extra _ = False"

fun is_ill_typed :: "kwarg \<Rightarrow> bool" where
  "is_ill_typed (KW_ill_typed k) = True"
| "is_ill_typed _ = False"

fun set_field :: "kwarg \<Rightarrow> navigation_config \<Rightarrow> navigation_config" where
  "set_field (KW_n_agents v) c = c\<lparr>n_agents := v\<rparr>"
| "set_field (KW_collisions v) c = c\<lparr>collisions := v\<rparr>"
| "set_field (KW_world_spawning_x v) c = c\<lparr>world_spawning_x := v\<rparr>"
| "set_field (KW_world_spawning_y v) c = c\<lparr>world_spawning_y := v\<rparr>"
| "set_field (KW_enforce_bounds v) c = c\<lparr>enforce_bounds := v\<rparr>"
| "set_field (KW_agents_with_same_goal v) c = c\<lparr>agents_with_same_goal := v\<rparr>"
| "set_field (KW_split_goals v) c = c\<lparr>split_goals := v\<rparr>"
| "set_field (KW_observe_all_goals v) c = c\<lparr>observe_all_goals := v\<rparr>"
| "set_field (KW_lidar_range v) c = c\<lparr>lidar_range := v\<rparr>"
| "set_field (KW_agent_radius v) c = c\<lparr>agent_radius := v\<rparr>"
| "set_field (KW_comms_range v) c = c\<lparr>comms_range := v\<rparr>"
| "set_field (KW_n_lidar_rays v) c = c\<lparr>n_lidar_rays := v\<rparr>"
| "set_field (KW_shared_rew v) c = c\<lparr>shared_rew := v\<rparr>"
| "set_field (KW_pos_shaping_factor v) c = c\<lparr>pos_shaping_factor := v\<rparr>"
| "set_field (KW_final_reward v) c = c\<lparr>final_reward := v\<rparr>"
| "set_field (KW_agent_collision_penalty v) c = c\<lparr>agent_collision_penalty := v\<rparr>"
| "set_field (KW_extra k) c = c"
| "set_field (KW_ill_typed k) c = c"

text \<open>
  \<^verbatim>\<open>BaseNavigationConfig(**kwargs)\<close> with \<^verbatim>\<open>model_config = ConfigDict(extra="forbid")\<close>:
  a key that is no field is refused, and so is a value that does not validate for its
  field; every other key overrides the field's default.
\<close>

definition BaseNavigationConfig :: "kwarg list \<Rightarrow> error + navigation_config" where
  "BaseNavigationConfig kwargs =
     (if list_ex is_extra kwargs \<or> list_ex is_ill_typed kwargs then Inl ValidationError
      else Inr (fold set_field kwargs BaseNavigationConfig_defaults))"

text \<open>
  What a caller can pass as \<^verbatim>\<open>config\<close>: \<^verbatim>\<open>None\<close>, an instance of
  \<^verbatim>\<open>BaseNavigationConfig\<close>, an instance of its subclass \<^verbatim>\<open>ObstacleNavigationConfig\<close>
  (the base fields and \<^verbatim>\<open>n_obstacles\<close>), or an object of another type.
\<close>

datatype config_arg =
  ConfigNone
  | NavigationConfig navigation_config
  | ObstacleNavigationConfig navigation_config int
  | OtherObject

record lidar =
  n_rays :: int
  max_range :: real

text \<open>
  An agent of the world with the attributes the scenario attaches to it. Every agent
  owns one goal landmark (\<^verbatim>\<open>agent.goal\<close>), so the goal's position and radius are fields
  of the agent. \<^verbatim>\<open>pos_shaping\<close>, \<^verbatim>\<open>distance_to_goal\<close> and \<^verbatim>\<open>on_goal\<close> are attributes
  that \<^verbatim>\<open>make_world\<close> does not create: \<open>None\<close> until they are first assigned.
\<close>

record agent =
  collide :: bool
  radius :: real
  sensors :: "lidar list"
  pos :: "vec2 list"
  vel :: "vec2 list"
  goal_pos :: "vec2 list"
  goal_radius :: real
  agent_pos_rew :: "real list"
  agent_collision_rew :: "real list"
  pos_shaping :: "real list option"
  distance_to_goal :: "real list option"
  on_goal :: "bool list option"

record scenario =
  config :: navigation_config
  batch_dim :: nat
  plot_grid :: bool
  min_distance_between_entities :: real
  min_collision_distance :: real
  x_semidim :: "int option"
  y_semidim :: "int option"
  agents :: "agent list"
  pos_rew :: "real list"
  final_rew :: "real list"
  all_goal_reached :: "bool list option"

section \<open>World construction\<close>

text \<open>
  The constructors of the simulator core that \<^verbatim>\<open>make_world\<close> calls are not in this file.
  Of their behaviour the model keeps what construction can trip over: \<^verbatim>\<open>World\<close> asserts
  \<open>batch_dim > 0\<close>, \<^verbatim>\<open>Sphere\<close> asserts \<open>radius > 0\<close>, and \<^verbatim>\<open>Lidar\<close> lays out its rays
  with \<^verbatim>\<open>torch.linspace\<close> over \<open>n_rays + 1\<close> steps, which refuses a negative number of
  steps.
\<close>

definition World :: "nat \<Rightarrow> error + nat" where
  "World bd = (if 0 < bd then Inr bd else Inl AssertionError)"

definition Sphere :: "real \<Rightarrow> error + real" where
  "Sphere r = (if 0 < r then Inr r else Inl AssertionError)"

definition Lidar :: "int \<Rightarrow> real \<Rightarrow> error + lidar" where
  "Lidar rays reach =
     (if rays + 1 < 0 then Inl RuntimeError else Inr \<lparr> n_rays = rays, max_range = reach \<rparr>)"

text \<open>
  The agent that one round of the loop of \<^verbatim>\<open>make_world\<close> adds, given its shape's radius
  and its sensors. The goal landmark is built without a shape, so it gets the simulator's
  default sphere, whose radius is not in this file: it is the parameter
  \<open>landmark_radius\<close>. Entity states start at zero.
\<close>

definition new_agent ::
  "nat \<Rightarrow> real \<Rightarrow> navigation_config \<Rightarrow> real \<Rightarrow> lidar list \<Rightarrow> agent" where
  "new_agent bd landmark_radius c shape_radius sens =
     \<lparr> collide = collisions c,
       radius = shape_radius,
       sensors = sens,
       pos = replicate bd (0, 0),
       vel = replicate bd (0, 0),
       goal_pos = replicate bd (0, 0),
       goal_radius = landmark_radius,
       agent_pos_rew = replicate bd 0,
       agent_collision_rew = replicate bd 0,
       pos_shaping = None,
       distance_to_goal = None,
       on_goal = None \<rparr>"

text \<open>
  One round of the loop (lines 135 to 168): the arguments of \<^verbatim>\<open>Agent(...)\<close> are built
  in order, the shape before the sensors, and either constructor can raise.
\<close>

definition add_agent :: "nat \<Rightarrow> real \<Rightarrow> navigation_config \<Rightarrow> error + agent" where
  "add_agent bd landmark_radius c =
     (case Sphere (agent_radius c) of
        Inl e \<Rightarrow> Inl e
      | Inr r \<Rightarrow>
          (case (if collisions c
                 then (case Lidar (n_lidar_rays c) (lidar_range c) of
                         Inl e \<Rightarrow> Inl e
                       | Inr l \<Rightarrow> Inr [l])
                 else Inr []) of
             Inl e \<Rightarrow> Inl e
           | Inr sens \<Rightarrow> Inr (new_agent bd landmark_radius c r sens)))"

fun add_agents :: "nat \<Rightarrow> nat \<Rightarrow> real \<Rightarrow> navigation_config \<Rightarrow> error + agent list" where
  "add_agents 0 bd landmark_radius c = Inr []"
| "add_agents (Suc n) bd landmark_radius c =
     (case add_agent bd landmark_radius c of
        Inl e \<Rightarrow> Inl e
      | Inr a \<Rightarrow>
          (case add_agents n bd landmark_radius c of
             Inl e \<Rightarrow> Inl e
           | Inr as \<Rightarrow> Inr (a # as)))"

text \<open>\<^verbatim>\<open>make_world\<close> from line 79 on, once the configuration object is there.\<close>

definition build_world :: "nat \<Rightarrow> real \<Rightarrow> navigation_config \<Rightarrow> error + scenario" where
  "build_world bd landmark_radius c =
     (if \<not> (1 \<le> agents_with_same_goal c \<and> agents_with_same_goal c \<le> n_agents c)
      then Inl AssertionError
      else if agents_with_same_goal c > 1 \<and> collisions c then Inl AssertionError
      else if split_goals c
              \<and> \<not> (n_agents c mod 2 = 0 \<and> agents_with_same_goal c = n_agents c div 2)
      then Inl AssertionError
      else
        (case World bd of
           Inl e \<Rightarrow> Inl e
         | Inr w \<Rightarrow>
             (case add_agents (nat (n_agents c)) w landmark_radius c of
                Inl e \<Rightarrow> Inl e
              | Inr as \<Rightarrow>
                  Inr \<lparr> config = c,
                        batch_dim = w,
                        plot_grid = False,
                        min_distance_between_entities = agent_radius c * 2 + 5 / 100,
                        min_collision_distance = 5 / 1000,
                        x_semidim = (if enforce_bounds c then Some (world_spawning_x c) else None),
                        y_semidim = (if enforce_bounds c then Some (world_spawning_y c) else None),
                        agents = as,
                        pos_rew = replicate w 0,
                        final_rew = replicate w 0,
                        all_goal_reached = None \<rparr>)))"

definition make_world ::
  "nat \<Rightarrow> real \<Rightarrow> config_arg \<Rightarrow> kwarg list \<Rightarrow> error + scenario" where
  "make_world bd landmark_radius cfg kwargs =
     (case (case cfg of
              ConfigNone \<Rightarrow> BaseNavigationConfig kwargs
            | NavigationConfig c \<Rightarrow> Inr c
            | ObstacleNavigationConfig c n \<Rightarrow> Inr c
            | OtherObject \<Rightarrow> Inl AssertionError) of
        Inl e \<Rightarrow> Inl e
      | Inr c \<Rightarrow> build_world bd landmark_radius c)"

section \<open>Batched arithmetic\<close>

definition sub2 :: "vec2 \<Rightarrow> vec2 \<Rightarrow> vec2" where
  "sub2 p q = (fst p - fst q, snd p - snd q)"

text \<open>\<^verbatim>\<open>torch.linalg.vector_norm\<close> of a 2-vector: the Euclidean norm.\<close>

definition vector_norm :: "vec2 \<Rightarrow> real" where
  "vector_norm v = sqrt ((fst v)\<^sup>2 + (snd v)\<^sup>2)"

text \<open>\<^verbatim>\<open>vector_norm(agent.state.pos - agent.goal.state.pos, dim=-1)\<close>, one value per environment.\<close>

definition goal_distance :: "agent \<Rightarrow> real list" where
  "goal_distance a = map vector_norm (map2 sub2 (pos a) (goal_pos a))"

text \<open>\<^verbatim>\<open>torch.stack(rows, dim=-1).all(-1)\<close>: per environment, the conjunction over the rows.\<close>

definition all_last_dim :: "nat \<Rightarrow> bool list list \<Rightarrow> bool list" where
  "all_last_dim bd rows = map (\<lambda>e. list_all (\<lambda>g. g ! e) rows) [0..<bd]"

text \<open>\<^verbatim>\<open>xs[mask] = v\<close> and \<^verbatim>\<open>xs[mask] += v\<close>.\<close>

definition masked_fill :: "bool list \<Rightarrow> real \<Rightarrow> real list \<Rightarrow> real list" where
  "masked_fill msk v xs = map2 (\<lambda>m x. if m then v else x) msk xs"

definition masked_add :: "bool list \<Rightarrow> real \<Rightarrow> real list \<Rightarrow> real list" where
  "masked_add msk v xs = map2 (\<lambda>m x. if m then x + v else x) msk xs"

section \<open>Reward engine\<close>

definition agent_reward :: "navigation_config \<Rightarrow> agent \<Rightarrow> error + (real list \<times> agent)" where
  "agent_reward c a =
     (let d = goal_distance a;
          a1 = a\<lparr>distance_to_goal := Some d, on_goal := Some (map (\<lambda>x. x < goal_radius a) d)\<rparr>;
          shaping = map (\<lambda>x. x * pos_shaping_factor c) d
      in case pos_shaping a1 of
           None \<Rightarrow> Inl AttributeError
         | Some prev \<Rightarrow>
             let rew = map2 (-) prev shaping
             in Inr (rew, a1\<lparr>agent_pos_rew := rew, pos_shaping := Some shaping\<rparr>))"

text \<open>
  The first loop of \<^verbatim>\<open>reward\<close>: \<^verbatim>\<open>self.pos_rew += self.agent_reward(a)\<close> and
  \<^verbatim>\<open>a.agent_collision_rew[:] = 0\<close> for every agent in turn.
\<close>

fun reward_loop ::
  "navigation_config \<Rightarrow> agent list \<Rightarrow> real list \<Rightarrow> error + (agent list \<times> real list)" where
  "reward_loop c [] acc = Inr ([], acc)"
| "reward_loop c (a # as) acc =
     (case agent_reward c a of
        Inl e \<Rightarrow> Inl e
      | Inr (rew, a') \<Rightarrow>
          (case reward_loop c as (map2 (+) acc rew) of
             Inl e \<Rightarrow> Inl e
           | Inr (as', acc') \<Rightarrow>
               Inr (a'\<lparr>agent_collision_rew := map (\<lambda>x. 0) (agent_collision_rew a')\<rparr> # as',
                    acc')))"

text \<open>\<^verbatim>\<open>[a.on_goal for a in self.world.agents]\<close>: reading an attribute never set raises.\<close>

fun stack_on_goal :: "agent list \<Rightarrow> error + bool list list" where
  "stack_on_goal [] = Inr []"
| "stack_on_goal (a # as) =
     (case on_goal a of
        None \<Rightarrow> Inl AttributeError
      | Some g \<Rightarrow> (case stack_on_goal as of Inl e \<Rightarrow> Inl e | Inr gs \<Rightarrow> Inr (g # gs)))"

text \<open>
  The body of the double loop over agent pairs. \<open>collides i j\<close> and \<open>get_distance i j\<close>
  stand for the simulator's \<^verbatim>\<open>world.collides(a, b)\<close> and \<^verbatim>\<open>world.get_distance(a, b)\<close>
  with \<open>a\<close> the agent at index \<open>i\<close> and \<open>b\<close> the agent at index \<open>j\<close>; both read the
  physical state only, which the reward computation does not change.
\<close>

definition collision_pair ::
  "(nat \<Rightarrow> nat \<Rightarrow> bool) \<Rightarrow> (nat \<Rightarrow> nat \<Rightarrow> real list) \<Rightarrow> real \<Rightarrow> real
     \<Rightarrow> nat \<times> nat \<Rightarrow> agent list \<Rightarrow> agent list" where
  "collision_pair collides get_distance thr pen ij as =
     (case ij of (i, j) \<Rightarrow>
        if i \<le> j then as
        else if collides i j then
          (let msk = map (\<lambda>d. d \<le> thr) (get_distance i j);
               as1 = as[i := (as ! i)\<lparr>agent_collision_rew :=
                                        masked_add msk pen (agent_collision_rew (as ! i))\<rparr>]
           in as1[j := (as1 ! j)\<lparr>agent_collision_rew :=
                                    masked_add msk pen (agent_collision_rew (as1 ! j))\<rparr>])
        else as)"

definition collision_loop ::
  "(nat \<Rightarrow> nat \<Rightarrow> bool) \<Rightarrow> (nat \<Rightarrow> nat \<Rightarrow> real list) \<Rightarrow> real \<Rightarrow> real
     \<Rightarrow> agent list \<Rightarrow> agent list" where
  "collision_loop collides get_distance thr pen as =
     fold (collision_pair collides get_distance thr pen)
       (List.product [0..<length as] [0..<length as]) as"

text \<open>The branch \<^verbatim>\<open>if is_first:\<close> of \<^verbatim>\<open>reward\<close>.\<close>

definition recompute ::
  "(nat \<Rightarrow> nat \<Rightarrow> bool) \<Rightarrow> (nat \<Rightarrow> nat \<Rightarrow> real list) \<Rightarrow> scenario \<Rightarrow> error + scenario" where
  "recompute collides get_distance s =
     (case reward_loop (config s) (agents s) (map (\<lambda>x. 0) (pos_rew s)) of
        Inl e \<Rightarrow> Inl e
      | Inr (as1, pr) \<Rightarrow>
          (case stack_on_goal as1 of
             Inl e \<Rightarrow> Inl e
           | Inr rows \<Rightarrow>
               (let agr = all_last_dim (batch_dim s) rows;
                    fr = masked_fill agr (final_reward (config s)) (map (\<lambda>x. 0) (final_rew s));
                    as2 = collision_loop collides get_distance (min_collision_distance s)
                            (agent_collision_penalty (config s)) as1
                in Inr (s\<lparr>agents := as2, pos_rew := pr, final_rew := fr,
                          all_goal_reached := Some agr\<rparr>))))"

text \<open>
  \<^verbatim>\<open>reward(agent)\<close> for the agent at index \<open>k\<close> of \<^verbatim>\<open>world.agents\<close>; \<^verbatim>\<open>is_first\<close> is
  \<open>k = 0\<close>. It returns the reward tensor and the scenario as the call leaves it.
\<close>

definition reward ::
  "(nat \<Rightarrow> nat \<Rightarrow> bool) \<Rightarrow> (nat \<Rightarrow> nat \<Rightarrow> real list) \<Rightarrow> scenario \<Rightarrow> nat
     \<Rightarrow> error + (real list \<times> scenario)" where
  "reward collides get_distance s k =
     (if length (agents s) \<le> k then Inl IndexError
      else case (if k = 0 then recompute collides get_distance s else Inr s) of
             Inl e \<Rightarrow> Inl e
           | Inr s' \<Rightarrow>
               (let a = agents s' ! k;
                    pos_reward = (if shared_rew (config s') then pos_rew s' else agent_pos_rew a)
                in Inr (map2 (+) (map2 (+) pos_reward (final_rew s')) (agent_collision_rew a),
                        s')))"

section \<open>Termination check\<close>

text \<open>
  \<^verbatim>\<open>done()\<close>, with the scenario it leaves behind. \<^verbatim>\<open>torch.stack\<close> of an empty list
  raises.
\<close>

definition scenario_done :: "scenario \<Rightarrow> error + (bool list \<times> scenario)" where
  "scenario_done s =
     (if agents s = [] then Inl RuntimeError
      else Inr (all_last_dim (batch_dim s)
                  (map (\<lambda>a. map (\<lambda>d. d < radius a) (goal_distance a)) (agents s)),
                s))"

section \<open>Observation encoder\<close>

definition flat :: "vec2 \<Rightarrow> real list" where
  "flat v = [fst v, snd v]"

text \<open>\<^verbatim>\<open>torch.cat(tensors, dim=-1)\<close>: per environment, the rows one after the other.\<close>

definition cat_last_dim :: "nat \<Rightarrow> real list list list \<Rightarrow> real list list" where
  "cat_last_dim bd tensors = map (\<lambda>e. concat (map (\<lambda>t. t ! e) tensors)) [0..<bd]"

text \<open>
  \<^verbatim>\<open>observation(agent)\<close> for the agent at index \<open>k\<close>. \<open>lidar_measure k\<close> stands for the sensor's
  \<^verbatim>\<open>agent.sensors[0].measure()\<close>: one row of ray readings per environment.
\<close>

definition observation ::
  "(nat \<Rightarrow> real list list) \<Rightarrow> scenario \<Rightarrow> nat \<Rightarrow> error + real list list" where
  "observation lidar_measure s k =
     (if length (agents s) \<le> k then Inl IndexError
      else
        (let agent = agents s ! k;
             goal_poses =
               (if observe_all_goals (config s)
                then map (\<lambda>a. map2 sub2 (pos agent) (goal_pos a)) (agents s)
                else [map2 sub2 (pos agent) (goal_pos agent)]);
             own = [map flat (pos agent), map flat (vel agent)] @ map (map flat) goal_poses
         in if collisions (config s) then
              (case sensors agent of
                 [] \<Rightarrow> Inl IndexError
               | l # ls \<Rightarrow>
                   Inr (cat_last_dim (batch_dim s)
                          (own @ [map (map (\<lambda>m. max_range l - m)) (lidar_measure k)])))
            else Inr (cat_last_dim (batch_dim s) own)))"

section \<open>Placement and reset\<close>

text \<open>
  Modelled from the spec: \<^verbatim>\<open>Entity.set_pos(pos, batch_index)\<close> of the simulator core, which
  is not in this file. It is the "batched position assignment, optionally restricted to
  one environment index": without an index the whole batch is replaced, with an index
  only that environment's entry is written (the new position has a single row then).
\<close>

definition set_pos :: "vec2 list \<Rightarrow> nat option \<Rightarrow> vec2 list \<Rightarrow> vec2 list" where
  "set_pos new batch_index old =
     (case batch_index of
        None \<Rightarrow> new
      | Some e \<Rightarrow> (case new of [] \<Rightarrow> old | p # ps \<Rightarrow> old[e := p]))"

text \<open>Python's \<^verbatim>\<open>xs[i]\<close>: a negative index counts from the end, out of range raises.\<close>

definition py_getitem :: "'a list \<Rightarrow> int \<Rightarrow> error + 'a" where
  "py_getitem xs i =
     (let n = int (length xs); j = (if i < 0 then n + i else i)
      in if 0 \<le> j \<and> j < n then Inr (xs ! nat j) else Inl IndexError)"

text \<open>The goal index of agent \<open>i\<close> (lines 322 to 325); \<^verbatim>\<open>//\<close> by zero raises.\<close>

definition goal_index :: "navigation_config \<Rightarrow> nat \<Rightarrow> error + int" where
  "goal_index c i =
     (if split_goals c then
        (if agents_with_same_goal c = 0 then Inl ZeroDivisionError
         else Inr (int i div agents_with_same_goal c))
      else Inr (if int i < agents_with_same_goal c then 0 else int i))"

text \<open>
  The loop that draws one goal position per agent. \<open>find_pos occupied\<close> stands for the
  placement utility \<^verbatim>\<open>ScenarioUtils.find_random_pos_for_entity\<close>: given the occupied
  positions of every environment being reset (one row per environment) it returns one
  new position per row. The positions drawn so far are appended to the occupied ones.
\<close>

fun draw_goal_poses ::
  "(vec2 list list \<Rightarrow> vec2 list) \<Rightarrow> nat \<Rightarrow> vec2 list list \<Rightarrow> vec2 list list" where
  "draw_goal_poses find_pos 0 occupied = []"
| "draw_goal_poses find_pos (Suc n) occupied =
     (let position = find_pos occupied
      in position # draw_goal_poses find_pos n (map2 (\<lambda>row p. row @ [p]) occupied position))"

text \<open>One round of the loop over the agents at lines 321 to 343.\<close>

definition reset_agent ::
  "navigation_config \<Rightarrow> nat option \<Rightarrow> vec2 list list \<Rightarrow> nat \<Rightarrow> agent \<Rightarrow> error + agent" where
  "reset_agent c env_index goal_poses i a =
     (case goal_index c i of
        Inl e \<Rightarrow> Inl e
      | Inr gi \<Rightarrow>
          (case py_getitem goal_poses gi of
             Inl e \<Rightarrow> Inl e
           | Inr gp \<Rightarrow>
               (let a1 = a\<lparr>goal_pos := set_pos gp env_index (goal_pos a)\<rparr>
                in case env_index of
                     None \<Rightarrow>
                       Inr (a1\<lparr>pos_shaping :=
                                 Some (map (\<lambda>d. d * pos_shaping_factor c) (goal_distance a1))\<rparr>)
                   | Some e \<Rightarrow>
                       (case pos_shaping a1 of
                          None \<Rightarrow> Inl AttributeError
                        | Some ps \<Rightarrow>
                            Inr (a1\<lparr>pos_shaping :=
                                      Some (ps[e := vector_norm (sub2 (pos a1 ! e) (goal_pos a1 ! e))
                                                     * pos_shaping_factor c])\<rparr>)))))"

fun reset_agents ::
  "navigation_config \<Rightarrow> nat option \<Rightarrow> vec2 list list \<Rightarrow> nat \<Rightarrow> agent list
     \<Rightarrow> error + agent list" where
  "reset_agents c env_index goal_poses i [] = Inr []"
| "reset_agents c env_index goal_poses i (a # as) =
     (case reset_agent c env_index goal_poses i a of
        Inl e \<Rightarrow> Inl e
      | Inr a' \<Rightarrow>
          (case reset_agents c env_index goal_poses (Suc i) as of
             Inl e \<Rightarrow> Inl e
           | Inr as' \<Rightarrow> Inr (a' # as')))"

text \<open>
  Modelled from the spec: \<^verbatim>\<open>ScenarioUtils.spawn_entities_randomly\<close>, which is not in this
  file, "places the agents first": \<open>spawned i\<close> is the position it chose for agent \<open>i\<close>
  (one row per environment being reset), assigned with \<^verbatim>\<open>set_pos\<close>.
\<close>

definition spawn_entities_randomly ::
  "(nat \<Rightarrow> vec2 list) \<Rightarrow> nat option \<Rightarrow> agent list \<Rightarrow> agent list" where
  "spawn_entities_randomly spawned env_index as =
     map (\<lambda>(i, a). a\<lparr>pos := set_pos (spawned i) env_index (pos a)\<rparr>) (enumerate 0 as)"

text \<open>
  \<^verbatim>\<open>Scenario.reset_world_at(env_index)\<close>. An environment index outside the batch raises
  when the occupied positions are indexed with it.
\<close>

definition reset_world_at ::
  "(nat \<Rightarrow> vec2 list) \<Rightarrow> (vec2 list list \<Rightarrow> vec2 list) \<Rightarrow> nat option \<Rightarrow> scenario
     \<Rightarrow> error + scenario" where
  "reset_world_at spawned find_pos env_index s =
     (let as1 = spawn_entities_randomly spawned env_index (agents s);
          stacked = map (\<lambda>e. map (\<lambda>a. pos a ! e) as1) [0..<batch_dim s]
      in case (case env_index of
                 None \<Rightarrow> Inr stacked
               | Some e \<Rightarrow> if e < batch_dim s then Inr [stacked ! e] else Inl IndexError) of
           Inl e \<Rightarrow> Inl e
         | Inr occupied_positions \<Rightarrow>
             (let goal_poses = draw_goal_poses find_pos (length as1) occupied_positions
              in case reset_agents (config s) env_index goal_poses 0 as1 of
                   Inl e \<Rightarrow> Inl e
                 | Inr as2 \<Rightarrow> Inr (s\<lparr>agents := as2\<rparr>)))"

section \<open>Steps of the simulator\<close>

text \<open>
  The physics integrator is outside this file. Its effect on the scenario between two
  reward evaluations is a new position for every agent: \<open>moved i\<close> for agent \<open>i\<close>.
\<close>

definition world_step :: "(nat \<Rightarrow> vec2 list) \<Rightarrow> scenario \<Rightarrow> scenario" where
  "world_step moved s =
     s\<lparr>agents := map (\<lambda>(i, a). a\<lparr>pos := moved i\<rparr>) (enumerate 0 (agents s))\<rparr>"

section \<open>Shapes\<close>

text \<open>Every batched attribute has one entry per environment.\<close>

definition wf_agent :: "nat \<Rightarrow> agent \<Rightarrow> bool" where
  "wf_agent bd a =
     (length (pos a) = bd \<and> length (vel a) = bd \<and> length (goal_pos a) = bd
      \<and> length (agent_pos_rew a) = bd \<and> length (agent_collision_rew a) = bd
      \<and> (case pos_shaping a of None \<Rightarrow> True | Some ps \<Rightarrow> length ps = bd))"

definition wf_scenario :: "scenario \<Rightarrow> bool" where
  "wf_scenario s =
     (list_all (wf_agent (batch_dim s)) (agents s)
      \<and> length (pos_rew s) = batch_dim s \<and> length (final_rew s) = batch_dim s)"

section \<open>Notions of the specification and example worlds\<close>

subsection \<open>The configuration rules in the specification's words\<close>

text \<open>
  The configuration that a call proposes: the given object's fields, or the defaults
  overridden by the keyword arguments.
\<close>

fun proposed_config :: "config_arg \<Rightarrow> kwarg list \<Rightarrow> navigation_config option" where
  "proposed_config ConfigNone kwargs = Some (fold set_field kwargs BaseNavigationConfig_defaults)"
| "proposed_config (NavigationConfig c) kwargs = Some c"
| "proposed_config (ObstacleNavigationConfig c n) kwargs = Some c"
| "proposed_config OtherObject kwargs = None"

definition wrong_config_type :: "config_arg \<Rightarrow> bool" where
  "wrong_config_type cfg = (cfg = OtherObject)"

definition has_extra_fields :: "config_arg \<Rightarrow> kwarg list \<Rightarrow> bool" where
  "has_extra_fields cfg kwargs = (cfg = ConfigNone \<and> list_ex is_extra kwargs)"

definition grouping_out_of_range :: "navigation_config \<Rightarrow> bool" where
  "grouping_out_of_range c =
     (agents_with_same_goal c < 1 \<or> n_agents c < agents_with_same_goal c)"

definition grouped_and_colliding :: "navigation_config \<Rightarrow> bool" where
  "grouped_and_colliding c = (agents_with_same_goal c > 1 \<and> collisions c)"

definition bad_split :: "navigation_config \<Rightarrow> bool" where
  "bad_split c =
     (split_goals c \<and> (odd (n_agents c) \<or> agents_with_same_goal c \<noteq> n_agents c div 2))"

definition invalid_configuration :: "config_arg \<Rightarrow> kwarg list \<Rightarrow> bool" where
  "invalid_configuration cfg kwargs =
     (wrong_config_type cfg \<or> has_extra_fields cfg kwargs
      \<or> (case proposed_config cfg kwargs of
            None \<Rightarrow> False
          | Some c \<Rightarrow> grouping_out_of_range c \<or> grouped_and_colliding c \<or> bad_split c))"

text \<open>
  What the listed rules leave out: a keyword value that does not validate, and what the
  simulator's constructors refuse. \<open>built_agent\<close> is the agent of a world that was built.
\<close>

definition has_ill_typed_fields :: "config_arg \<Rightarrow> kwarg list \<Rightarrow> bool" where
  "has_ill_typed_fields cfg kwargs = (cfg = ConfigNone \<and> list_ex is_ill_typed kwargs)"

definition nonpositive_radius :: "config_arg \<Rightarrow> kwarg list \<Rightarrow> bool" where
  "nonpositive_radius cfg kwargs =
     (case proposed_config cfg kwargs of None \<Rightarrow> False | Some c \<Rightarrow> agent_radius c \<le> 0)"

definition lidar_rays_accepted :: "config_arg \<Rightarrow> kwarg list \<Rightarrow> bool" where
  "lidar_rays_accepted cfg kwargs =
     (case proposed_config cfg kwargs of
        None \<Rightarrow> True
      | Some c \<Rightarrow> collisions c \<longrightarrow> 0 \<le> n_lidar_rays c)"

definition built_agent :: "nat \<Rightarrow> real \<Rightarrow> navigation_config \<Rightarrow> agent" where
  "built_agent bd landmark_radius c =
     new_agent bd landmark_radius c (agent_radius c)
       (if collisions c then [\<lparr> n_rays = n_lidar_rays c, max_range = lidar_range c \<rparr>] else [])"

definition raises :: "error + 'a \<Rightarrow> bool" where
  "raises r = (case r of Inl e \<Rightarrow> True | Inr v \<Rightarrow> False)"

subsection \<open>Goal assignment in the specification's words\<close>

text \<open>
  The goal index of agent \<open>i\<close> as the specification gives it: \<open>i div agents_with_same_goal\<close>
  when goals are split, otherwise 0 for the first \<open>agents_with_same_goal\<close> agents and
  \<open>i\<close> for the others.
\<close>

definition spec_goal_index :: "navigation_config \<Rightarrow> nat \<Rightarrow> nat" where
  "spec_goal_index c i =
     (if split_goals c then i div nat (agents_with_same_goal c)
      else if int i < agents_with_same_goal c then 0 else i)"

text \<open>The list \<^verbatim>\<open>goal_poses\<close> that a reset draws (lines 308 to 319).\<close>

definition reset_goal_poses ::
  "(nat \<Rightarrow> vec2 list) \<Rightarrow> (vec2 list list \<Rightarrow> vec2 list) \<Rightarrow> nat option \<Rightarrow> scenario
     \<Rightarrow> vec2 list list" where
  "reset_goal_poses spawned find_pos env_index s =
     (let as1 = spawn_entities_randomly spawned env_index (agents s);
          stacked = map (\<lambda>e. map (\<lambda>a. pos a ! e) as1) [0..<batch_dim s]
      in draw_goal_poses find_pos (length as1)
           (case env_index of None \<Rightarrow> stacked | Some e \<Rightarrow> [stacked ! e]))"

text \<open>
  A world of four agents in one environment with split goals, and a placement that puts
  each new entity at \<open>(number of occupied positions, 0)\<close>.
\<close>

definition split_config :: navigation_config where
  "split_config = BaseNavigationConfig_defaults
     \<lparr>n_agents := 4, collisions := False, agents_with_same_goal := 2, split_goals := True\<rparr>"

definition split_world :: scenario where
  "split_world = projr (make_world 1 (1 / 20) (NavigationConfig split_config) [])"

definition count_pos :: "vec2 list list \<Rightarrow> vec2 list" where
  "count_pos occupied = map (\<lambda>row. (real (length row), 0)) occupied"

subsection \<open>The slice of an agent at one environment\<close>

text \<open>
  What a reset places for an agent in environment \<open>e\<close> (its position and its goal's
  position there), and the agent's shaping baseline there.
\<close>

definition placed_at :: "nat \<Rightarrow> agent \<Rightarrow> vec2 \<times> vec2" where
  "placed_at e a = (pos a ! e, goal_pos a ! e)"

definition shaping_at :: "nat \<Rightarrow> agent \<Rightarrow> real option" where
  "shaping_at e a = map_option (\<lambda>ps. ps ! e) (pos_shaping a)"

text \<open>
  Two worlds of two agents in two environments that agree in environment 1 and differ
  in environment 0.
\<close>

definition pair_config :: navigation_config where
  "pair_config = BaseNavigationConfig_defaults \<lparr>n_agents := 2, collisions := False\<rparr>"

definition pair_agent :: "vec2 list \<Rightarrow> vec2 list \<Rightarrow> real list \<Rightarrow> agent" where
  "pair_agent p g sh =
     \<lparr> collide = False, radius = 1 / 10, sensors = [], pos = p, vel = [(0, 0), (0, 0)],
       goal_pos = g, goal_radius = 1 / 20, agent_pos_rew = [0, 0],
       agent_collision_rew = [0, 0], pos_shaping = Some sh, distance_to_goal = None,
       on_goal = None \<rparr>"

definition pair_scenario :: "agent list \<Rightarrow> scenario" where
  "pair_scenario as =
     \<lparr> config = pair_config, batch_dim = 2, plot_grid = False,
       min_distance_between_entities = 1 / 4, min_collision_distance = 1 / 200,
       x_semidim = None, y_semidim = None, agents = as, pos_rew = [0, 0],
       final_rew = [0, 0], all_goal_reached = None \<rparr>"

definition pair_world :: scenario where
  "pair_world = pair_scenario
     [pair_agent [(0, 0), (1, 0)] [(7, 7), (1, 2)] [3, 2],
      pair_agent [(0, 1), (1, 1)] [(8, 8), (3, 1)] [4, 2] ]"

definition pair_world_moved :: scenario where
  "pair_world_moved = pair_scenario
     [pair_agent [(5, 5), (1, 0)] [(6, 6), (1, 2)] [9, 2],
      pair_agent [(4, 4), (1, 1)] [(2, 2), (3, 1)] [9, 2] ]"

subsection \<open>Being within a radius of the goal\<close>

text \<open>
  In environment \<open>e\<close>, every agent is closer to its goal than the goal's radius (the
  specification's condition), and closer than the agent's own radius.
\<close>

definition within_goal_radius :: "nat \<Rightarrow> scenario \<Rightarrow> bool" where
  "within_goal_radius e s =
     list_all (\<lambda>a. vector_norm (sub2 (pos a ! e) (goal_pos a ! e)) < goal_radius a) (agents s)"

definition within_agent_radius :: "nat \<Rightarrow> scenario \<Rightarrow> bool" where
  "within_agent_radius e s =
     list_all (\<lambda>a. vector_norm (sub2 (pos a ! e) (goal_pos a ! e)) < radius a) (agents s)"

text \<open>
  A world in which, in environment 0, the first agent is at distance \<open>0.05\<close> from its
  goal: inside its own radius \<open>0.1\<close>, not inside the goal's radius \<open>0.05\<close>.
\<close>

definition near_world :: scenario where
  "near_world = pair_scenario
     [pair_agent [(0, 0), (1, 0)] [(3 / 100, 1 / 25), (1, 0)] [1, 0],
      pair_agent [(0, 1), (1, 1)] [(0, 1), (1, 1)] [0, 0] ]"

subsection \<open>Worlds as construction leaves them\<close>

text \<open>
  The shape that \<^verbatim>\<open>make_world\<close> gives a world and that resets and rewards keep: one
  agent per configured agent, every batched attribute of batch size, and a lidar on
  every agent when collisions are enabled.
\<close>

definition world_of_config :: "scenario \<Rightarrow> bool" where
  "world_of_config s =
     (wf_scenario s \<and> int (length (agents s)) = n_agents (config s)
      \<and> (collisions (config s) \<longrightarrow> list_all (\<lambda>a. sensors a \<noteq> []) (agents s)))"

text \<open>The sensor's contract: one row per environment, one reading per ray.\<close>

definition lidar_contract :: "scenario \<Rightarrow> real list list \<Rightarrow> bool" where
  "lidar_contract s m =
     (length m = batch_dim s \<and> list_all (\<lambda>row. int (length row) = n_lidar_rays (config s)) m)"

text \<open>The observation length that the specification gives.\<close>

definition observation_length :: "navigation_config \<Rightarrow> int" where
  "observation_length c =
     4 + (if observe_all_goals c then 2 * n_agents c else 2)
       + (if collisions c then n_lidar_rays c else 0)"

text \<open>A world of two colliding agents with three lidar rays each, in one environment.\<close>

definition lidar_world :: scenario where
  "lidar_world = projr (make_world 1 (1 / 20) ConfigNone [KW_n_agents 2, KW_n_lidar_rays 3])"

section \<open>One step of the environment\<close>

text \<open>
  The caller of \<^verbatim>\<open>reward\<close>: it asks for the reward of the agents at the indices \<open>ks\<close>
  in that order, each call seeing the scenario as the call before left it. A step of
  the environment moves the agents and asks for every agent's reward in world order.
\<close>

fun rewards_from ::
  "(nat \<Rightarrow> nat \<Rightarrow> bool) \<Rightarrow> (nat \<Rightarrow> nat \<Rightarrow> real list) \<Rightarrow> scenario \<Rightarrow> nat list
     \<Rightarrow> error + (real list list \<times> scenario)" where
  "rewards_from collides get_distance s [] = Inr ([], s)"
| "rewards_from collides get_distance s (k # ks) =
     (case reward collides get_distance s k of
        Inl e \<Rightarrow> Inl e
      | Inr (r, s') \<Rightarrow>
          (case rewards_from collides get_distance s' ks of
             Inl e \<Rightarrow> Inl e
           | Inr (rs, s'') \<Rightarrow> Inr (r # rs, s'')))"

definition env_step ::
  "(nat \<Rightarrow> nat \<Rightarrow> bool) \<Rightarrow> (nat \<Rightarrow> nat \<Rightarrow> real list) \<Rightarrow> (nat \<Rightarrow> vec2 list) \<Rightarrow> scenario
     \<Rightarrow> error + (real list list \<times> scenario)" where
  "env_step collides get_distance moved s =
     rewards_from collides get_distance (world_step moved s) [0..<length (agents s)]"

text \<open>The shaping value of an agent's current distance, per environment.\<close>

definition shaping :: "navigation_config \<Rightarrow> agent \<Rightarrow> real list" where
  "shaping c a = map (\<lambda>x. x * pos_shaping_factor c) (goal_distance a)"

text \<open>Every agent has a shaping baseline: the world has been reset at least once.\<close>

definition has_baseline :: "scenario \<Rightarrow> bool" where
  "has_baseline s = list_all (\<lambda>a. pos_shaping a \<noteq> None) (agents s)"

section \<open>Collision penalties in the specification's words\<close>

text \<open>
  The pair of the agents at indices \<open>k\<close> and \<open>l\<close> triggers a penalty in environment
  \<open>e\<close>: the two are collidable and their distance there is at most the threshold. The
  simulator is asked with the larger index first, as the loop does.
\<close>

definition pair_triggers ::
  "(nat \<Rightarrow> nat \<Rightarrow> bool) \<Rightarrow> (nat \<Rightarrow> nat \<Rightarrow> real list) \<Rightarrow> real \<Rightarrow> nat \<Rightarrow> nat \<Rightarrow> nat \<Rightarrow> bool" where
  "pair_triggers collides get_distance thr e k l =
     (k \<noteq> l \<and> collides (max k l) (min k l) \<and> get_distance (max k l) (min k l) ! e \<le> thr)"

text \<open>The simulator's distance query returns one value per environment.\<close>

definition distance_contract :: "nat \<Rightarrow> (nat \<Rightarrow> nat \<Rightarrow> real list) \<Rightarrow> bool" where
  "distance_contract bd get_distance = (\<forall>i j. length (get_distance i j) = bd)"

text \<open>An agent without its collision accumulator: what the pair loop must not touch.\<close>

definition without_collision_rew :: "agent \<Rightarrow> agent" where
  "without_collision_rew a = a\<lparr>agent_collision_rew := []\<rparr>"

text \<open>
  The tensor that \<^verbatim>\<open>reward\<close> returns for the agent at index \<open>k\<close> (lines 206 and 207),
  read from the scenario as it stands.
\<close>

definition reward_value :: "scenario \<Rightarrow> nat \<Rightarrow> real list" where
  "reward_value s k =
     map2 (+)
       (map2 (+) (if shared_rew (config s) then pos_rew s else agent_pos_rew (agents s ! k))
          (final_rew s))
       (agent_collision_rew (agents s ! k))"

text \<open>
  A run of the environment over several steps: after every step, the rewards it returned
  and the scenario it left.
\<close>

fun rollout ::
  "(nat \<Rightarrow> nat \<Rightarrow> bool) \<Rightarrow> (nat \<Rightarrow> nat \<Rightarrow> real list) \<Rightarrow> scenario \<Rightarrow> (nat \<Rightarrow> vec2 list) list
     \<Rightarrow> error + (real list list \<times> scenario) list" where
  "rollout collides get_distance s [] = Inr []"
| "rollout collides get_distance s (moved # ms) =
     (case env_step collides get_distance moved s of
        Inl e \<Rightarrow> Inl e
      | Inr (rs, s') \<Rightarrow>
          (case rollout collides get_distance s' ms of
             Inl e \<Rightarrow> Inl e
           | Inr out \<Rightarrow> Inr ((rs, s') # out)))"

text \<open>
  A simulator in which no pair of agents collides, and a move that puts every agent of
  \<open>near_world\<close> on its goal.
\<close>

definition never_collides :: "nat \<Rightarrow> nat \<Rightarrow> bool" where
  "never_collides i j = False"

definition far_apart :: "nat \<Rightarrow> nat \<Rightarrow> real list" where
  "far_apart i j = [1, 1]"

definition to_goal :: "nat \<Rightarrow> vec2 list" where
  "to_goal i = (if i = 0 then [(3 / 100, 1 / 25), (1, 0)] else [(0, 1), (1, 1)])"

text \<open>The scenario at the end of a run that started in \<open>s\<close>.\<close>

definition final_scenario :: "scenario \<Rightarrow> (real list list \<times> scenario) list \<Rightarrow> scenario" where
  "final_scenario s out = last (s # map snd out)"

text \<open>
  The progress rewards of the agent at index \<open>k\<close> in environment \<open>e\<close>, one per step
  of a run: the agent's \<^verbatim>\<open>pos_rew\<close> as each step left it.
\<close>

definition progress_rewards ::
  "nat \<Rightarrow> nat \<Rightarrow> (real list list \<times> scenario) list \<Rightarrow> real list" where
  "progress_rewards k e out = map (\<lambda>(rs, s'). agent_pos_rew (agents s' ! k) ! e) out"

text \<open>Every move of a trajectory gives every agent one position per environment.\<close>

definition trajectory_contract :: "scenario \<Rightarrow> (nat \<Rightarrow> vec2 list) list \<Rightarrow> bool" where
  "trajectory_contract s ms =
     list_all (\<lambda>moved. list_all (\<lambda>i. length (moved i) = batch_dim s) [0..<length (agents s)]) ms"

section \<open>When construction fails\<close>

lemma add_agent_cases:
  "add_agent bd lr c =
     (if agent_radius c \<le> 0 then Inl AssertionError
      else if collisions c \<and> n_lidar_rays c + 1 < 0 then Inl RuntimeError
      else Inr (built_agent bd lr c))"
  by (simp add: add_agent_def Sphere_def Lidar_def built_agent_def)

lemma add_agents_cases:
  "add_agents n bd lr c =
     (if n = 0 then Inr []
      else (case add_agent bd lr c of
              Inl e \<Rightarrow> Inl e
            | Inr a \<Rightarrow> Inr (replicate n a)))"
  by (induction n) (auto split: sum.splits)

lemmas config_rule_defs =
  wrong_config_type_def has_extra_fields_def has_ill_typed_fields_def
  grouping_out_of_range_def grouped_and_colliding_def bad_split_def

lemma build_world_refused:
  "grouping_out_of_range c \<or> grouped_and_colliding c \<or> bad_split c
     \<Longrightarrow> build_world bd lr c = Inl AssertionError"
  by (auto simp: build_world_def config_rule_defs odd_iff_mod_2_eq_one)

lemma build_world_accepted:
  assumes "\<not> grouping_out_of_range c" "\<not> grouped_and_colliding c" "\<not> bad_split c"
  shows "build_world bd lr c =
     (if bd = 0 then Inl AssertionError
      else if agent_radius c \<le> 0 then Inl AssertionError
      else if collisions c \<and> n_lidar_rays c + 1 < 0 then Inl RuntimeError
      else Inr \<lparr> config = c, batch_dim = bd, plot_grid = False,
                 min_distance_between_entities = agent_radius c * 2 + 5 / 100,
                 min_collision_distance = 5 / 1000,
                 x_semidim = (if enforce_bounds c then Some (world_spawning_x c) else None),
                 y_semidim = (if enforce_bounds c then Some (world_spawning_y c) else None),
                 agents = replicate (nat (n_agents c)) (built_agent bd lr c),
                 pos_rew = replicate bd 0, final_rew = replicate bd 0,
                 all_goal_reached = None \<rparr>)"
proof -
  have chk: "1 \<le> agents_with_same_goal c \<and> agents_with_same_goal c \<le> n_agents c"
    "\<not> (agents_with_same_goal c > 1 \<and> collisions c)"
    "\<not> (split_goals c
         \<and> \<not> (n_agents c mod 2 = 0 \<and> agents_with_same_goal c = n_agents c div 2))"
    using assms by (auto simp: config_rule_defs odd_iff_mod_2_eq_one)
  have n: "\<not> n_agents c \<le> 0" using chk(1) by simp
  show ?thesis
    unfolding build_world_def
    by (simp only: chk if_False if_True not_True_eq_False simp_thms)
       (simp add: World_def add_agents_cases n add_agent_cases)
qed

lemma make_world_resolve:
  "make_world bd lr cfg kwargs =
     (if wrong_config_type cfg then Inl AssertionError
      else if has_extra_fields cfg kwargs \<or> has_ill_typed_fields cfg kwargs
      then Inl ValidationError
      else (case proposed_config cfg kwargs of
              None \<Rightarrow> Inl AssertionError
            | Some c \<Rightarrow> build_world bd lr c))"
  by (cases cfg)
     (simp_all add: make_world_def wrong_config_type_def has_extra_fields_def
        has_ill_typed_fields_def BaseNavigationConfig_def)

text \<open>The checks of a construction in their order, and the scenario it returns.\<close>

lemma make_world_cases:
  "make_world bd lr cfg kwargs =
     (if wrong_config_type cfg then Inl AssertionError
      else if has_extra_fields cfg kwargs \<or> has_ill_typed_fields cfg kwargs
      then Inl ValidationError
      else (case proposed_config cfg kwargs of
              None \<Rightarrow> Inl AssertionError
            | Some c \<Rightarrow>
                if grouping_out_of_range c \<or> grouped_and_colliding c \<or> bad_split c
                then Inl AssertionError
                else if bd = 0 then Inl AssertionError
                else if agent_radius c \<le> 0 then Inl AssertionError
                else if collisions c \<and> n_lidar_rays c + 1 < 0 then Inl RuntimeError
                else Inr \<lparr> config = c, batch_dim = bd, plot_grid = False,
                           min_distance_between_entities = agent_radius c * 2 + 5 / 100,
                           min_collision_distance = 5 / 1000,
                           x_semidim =
                             (if enforce_bounds c then Some (world_spawning_x c) else None),
                           y_semidim =
                             (if enforce_bounds c then Some (world_spawning_y c) else None),
                           agents = replicate (nat (n_agents c)) (built_agent bd lr c),
                           pos_rew = replicate bd 0, final_rew = replicate bd 0,
                           all_goal_reached = None \<rparr>))"
proof (cases "proposed_config cfg kwargs")
  case None
  then show ?thesis by (simp add: make_world_resolve)
next
  case (Some c)
  show ?thesis
  proof (cases "grouping_out_of_range c \<or> grouped_and_colliding c \<or> bad_split c")
    case True
    then show ?thesis
      by (simp only: make_world_resolve Some option.case build_world_refused [OF True] if_True)
  next
    case False
    then have "build_world bd lr c =
     (if bd = 0 then Inl AssertionError
      else if agent_radius c \<le> 0 then Inl AssertionError
      else if collisions c \<and> n_lidar_rays c + 1 < 0 then Inl RuntimeError
      else Inr \<lparr> config = c, batch_dim = bd, plot_grid = False,
                 min_distance_between_entities = agent_radius c * 2 + 5 / 100,
                 min_collision_distance = 5 / 1000,
                 x_semidim = (if enforce_bounds c then Some (world_spawning_x c) else None),
                 y_semidim = (if enforce_bounds c then Some (world_spawning_y c) else None),
                 agents = replicate (nat (n_agents c)) (built_agent bd lr c),
                 pos_rew = replicate bd 0, final_rew = replicate bd 0,
                 all_goal_reached = None \<rparr>)"
      by (intro build_world_accepted) simp_all
    with False show ?thesis
      by (simp only: make_world_resolve Some option.case if_False)
  qed
qed

text \<open>
  C9 (as the code has it). \<^verbatim>\<open>make_world\<close> raises if and only if the configuration is
  invalid in one of the listed ways (the config object is of another type, there are
  unexpected extra fields, \<open>agents_with_same_goal\<close> is outside \<open>[1, n_agents]\<close>, it is
  above 1 while collisions are enabled, or \<open>split_goals\<close> is set while \<open>n_agents\<close> is odd
  or \<open>agents_with_same_goal\<close> differs from \<open>n_agents div 2\<close>), or a keyword value does
  not validate for its field, or \<open>batch_dim\<close> is 0, or \<open>agent_radius\<close> is not positive.
  In every other case the construction returns a scenario that holds the configuration
  and \<open>n_agents\<close> agents. The lidar ray count is taken to be non-negative when
  collisions are enabled.
\<close>

theorem make_world_raises_iff_invalid_or_refused:
  assumes "lidar_rays_accepted cfg kwargs"
  shows "(raises (make_world bd lr cfg kwargs) \<longleftrightarrow>
            invalid_configuration cfg kwargs \<or> has_ill_typed_fields cfg kwargs
            \<or> bd = 0 \<or> nonpositive_radius cfg kwargs)
   \<and> (\<not> (invalid_configuration cfg kwargs \<or> has_ill_typed_fields cfg kwargs
           \<or> bd = 0 \<or> nonpositive_radius cfg kwargs) \<longrightarrow>
        (\<exists>s c. make_world bd lr cfg kwargs = Inr s \<and> proposed_config cfg kwargs = Some c
               \<and> config s = c \<and> batch_dim s = bd
               \<and> int (length (agents s)) = n_agents c))"
proof (cases "proposed_config cfg kwargs")
  case None
  then have "cfg = OtherObject" by (cases cfg) auto
  then show ?thesis
    by (simp add: make_world_def raises_def invalid_configuration_def wrong_config_type_def)
next
  case (Some c)
  then have ty: "\<not> wrong_config_type cfg"
    by (cases cfg) (auto simp: wrong_config_type_def)
  have rays: "\<not> (collisions c \<and> n_lidar_rays c + 1 < 0)"
    using assms Some by (auto simp: lidar_rays_accepted_def)
  show ?thesis
  proof (cases "has_extra_fields cfg kwargs \<or> has_ill_typed_fields cfg kwargs
                 \<or> grouping_out_of_range c \<or> grouped_and_colliding c \<or> bad_split c
                 \<or> bd = 0 \<or> agent_radius c \<le> 0")
    case True
    then have "raises (make_world bd lr cfg kwargs)"
      using Some ty by (auto simp: make_world_cases [of bd lr cfg kwargs] raises_def)
    moreover from True have "invalid_configuration cfg kwargs \<or> has_ill_typed_fields cfg kwargs
            \<or> bd = 0 \<or> nonpositive_radius cfg kwargs"
      using Some by (auto simp: invalid_configuration_def nonpositive_radius_def)
    ultimately show ?thesis by simp
  next
    case False
    then have ok: "\<not> (invalid_configuration cfg kwargs \<or> has_ill_typed_fields cfg kwargs
            \<or> bd = 0 \<or> nonpositive_radius cfg kwargs)"
      using Some ty by (auto simp: invalid_configuration_def nonpositive_radius_def)
    have n: "1 \<le> n_agents c"
      using False by (auto simp: grouping_out_of_range_def)
    from False rays Some ty
    have "\<exists>s. make_world bd lr cfg kwargs = Inr s \<and> config s = c \<and> batch_dim s = bd
               \<and> agents s = replicate (nat (n_agents c)) (built_agent bd lr c)"
      by (simp add: make_world_cases [of bd lr cfg kwargs])
    then obtain s where s: "make_world bd lr cfg kwargs = Inr s" "config s = c"
        "batch_dim s = bd" "int (length (agents s)) = n_agents c"
      using n by auto
    then have "\<not> raises (make_world bd lr cfg kwargs)" by (simp add: raises_def)
    with ok s Some show ?thesis by auto
  qed
qed

theorem make_world_raises_iff_invalid_or_refused_witness:
  "lidar_rays_accepted ConfigNone [KW_split_goals True]
   \<and> raises (make_world 2 (1 / 20) ConfigNone [KW_split_goals True])
   \<and> invalid_configuration ConfigNone [KW_split_goals True]
   \<and> lidar_rays_accepted ConfigNone [KW_n_agents 2, KW_split_goals True]
   \<and> \<not> invalid_configuration ConfigNone [KW_n_agents 2, KW_split_goals True]
   \<and> (\<exists>s. make_world 2 (1 / 20) ConfigNone [KW_n_agents 2, KW_split_goals True] = Inr s
          \<and> length (agents s) = 2)"
proof -
  let ?bad = "[KW_split_goals True]"
  let ?good = "[KW_n_agents 2, KW_split_goals True]"
  have l1: "lidar_rays_accepted ConfigNone ?bad"
    by (simp add: lidar_rays_accepted_def BaseNavigationConfig_defaults_def)
  have l2: "lidar_rays_accepted ConfigNone ?good"
    by (simp add: lidar_rays_accepted_def BaseNavigationConfig_defaults_def)
  have bad: "invalid_configuration ConfigNone ?bad"
    by (simp add: invalid_configuration_def bad_split_def BaseNavigationConfig_defaults_def)
  have good: "\<not> (invalid_configuration ConfigNone ?good \<or> has_ill_typed_fields ConfigNone ?good
                  \<or> (2::nat) = 0 \<or> nonpositive_radius ConfigNone ?good)"
    by (simp add: invalid_configuration_def bad_split_def BaseNavigationConfig_defaults_def
          wrong_config_type_def has_extra_fields_def grouping_out_of_range_def
          grouped_and_colliding_def has_ill_typed_fields_def nonpositive_radius_def)
  have n: "proposed_config ConfigNone ?good = Some c \<Longrightarrow> n_agents c = 2" for c
    by (auto simp: BaseNavigationConfig_defaults_def)
  from make_world_raises_iff_invalid_or_refused [OF l1, of 2 "1 / 20"] bad
  have r: "raises (make_world 2 (1 / 20) ConfigNone ?bad)" by blast
  from make_world_raises_iff_invalid_or_refused [OF l2, of 2 "1 / 20"] good
  obtain s c where "make_world 2 (1 / 20) ConfigNone ?good = Inr s"
      "proposed_config ConfigNone ?good = Some c" "int (length (agents s)) = n_agents c"
    by blast
  with n have "\<exists>s. make_world 2 (1 / 20) ConfigNone ?good = Inr s \<and> length (agents s) = 2"
    by auto
  with r bad good l1 l2 show ?thesis by blast
qed

theorem make_world_constructor_counterexample:
  "\<not> invalid_configuration ConfigNone [KW_agent_radius 0]
   \<and> raises (make_world 2 (1 / 20) ConfigNone [KW_agent_radius 0])
   \<and> \<not> invalid_configuration ConfigNone []
   \<and> raises (make_world 0 (1 / 20) ConfigNone [])"
  by (simp add: invalid_configuration_def wrong_config_type_def has_extra_fields_def
        grouping_out_of_range_def grouped_and_colliding_def bad_split_def
        BaseNavigationConfig_defaults_def raises_def make_world_cases
        has_ill_typed_fields_def)

section \<open>Goal assignment at reset\<close>


lemma length_draw_goal_poses: "length (draw_goal_poses f n occ) = n"
  by (induction n arbitrary: occ) (auto simp: Let_def)

lemma length_spawn: "length (spawn_entities_randomly sp ei as) = length as"
  by (simp add: spawn_entities_randomly_def)

lemma nth_spawn:
  "j < length as \<Longrightarrow>
     spawn_entities_randomly sp ei as ! j = (as ! j)\<lparr>pos := set_pos (sp j) ei (pos (as ! j))\<rparr>"
  by (simp add: spawn_entities_randomly_def nth_enumerate_eq)

lemma reset_agents_nth:
  "reset_agents c ei gps i0 as = Inr as' \<Longrightarrow>
     length as' = length as
     \<and> (\<forall>j<length as. reset_agent c ei gps (i0 + j) (as ! j) = Inr (as' ! j))"
proof (induction as arbitrary: i0 as')
  case Nil
  then show ?case by simp
next
  case (Cons a as)
  then obtain a' as'' where a': "reset_agent c ei gps i0 a = Inr a'"
    and r: "reset_agents c ei gps (Suc i0) as = Inr as''" and e: "as' = a' # as''"
    by (auto split: sum.splits)
  from Cons.IH [OF r] a' e show ?case
    by (auto simp: nth_Cons split: nat.splits)
qed

lemma reset_agents_total:
  "(\<forall>j<length as. \<exists>a'. reset_agent c ei gps (i0 + j) (as ! j) = Inr a') \<Longrightarrow>
     \<exists>as'. reset_agents c ei gps i0 as = Inr as'"
proof (induction as arbitrary: i0)
  case Nil
  then show ?case by simp
next
  case (Cons a as)
  from Cons.prems [rule_format, of 0] obtain a' where a': "reset_agent c ei gps i0 a = Inr a'"
    by auto
  have "\<forall>j<length as. \<exists>a'. reset_agent c ei gps (Suc i0 + j) (as ! j) = Inr a'"
    using Cons.prems by fastforce
  from Cons.IH [OF this] a' show ?case by auto
qed

lemma goal_index_valid:
  assumes "1 \<le> agents_with_same_goal c" "i < n"
  shows "goal_index c i = Inr (int (spec_goal_index c i)) \<and> spec_goal_index c i < n"
proof -
  have lt: "i div nat (agents_with_same_goal c) < n"
    by (rule le_less_trans [OF div_le_dividend assms(2)])
  have dv: "int (i div nat (agents_with_same_goal c)) = int i div agents_with_same_goal c"
    using assms by (simp add: zdiv_int)
  have "goal_index c i = Inr (int (spec_goal_index c i))"
    using assms dv by (auto simp: goal_index_def spec_goal_index_def)
  moreover have "spec_goal_index c i < n"
    using assms(2) lt by (simp add: spec_goal_index_def)
  ultimately show ?thesis ..
qed

lemma py_getitem_nat: "i < length xs \<Longrightarrow> py_getitem xs (int i) = Inr (xs ! i)"
  by (simp add: py_getitem_def)


lemma reset_world_at_Inr:
  assumes "reset_world_at sp f ei s = Inr s'"
  shows "s' = s\<lparr>agents := agents s'\<rparr>"
    and "reset_agents (config s) ei (reset_goal_poses sp f ei s) 0
           (spawn_entities_randomly sp ei (agents s)) = Inr (agents s')"
    and "ei = Some e \<Longrightarrow> e < batch_dim s"
  using assms
  by (auto simp: reset_world_at_def reset_goal_poses_def Let_def
        split: sum.splits option.splits if_splits)

lemma reset_world_at_None:
  assumes "reset_agents (config s) None (reset_goal_poses sp f None s) 0
             (spawn_entities_randomly sp None (agents s)) = Inr as2"
  shows "reset_world_at sp f None s = Inr (s\<lparr>agents := as2\<rparr>)"
  using assms by (simp add: reset_world_at_def reset_goal_poses_def Let_def)

lemma reset_agent_goal_pos:
  assumes "1 \<le> agents_with_same_goal c" "i < length gps" "reset_agent c ei gps i a = Inr a'"
  shows "goal_pos a' = set_pos (gps ! spec_goal_index c i) ei (goal_pos a)"
proof -
  from goal_index_valid [OF assms(1,2)]
  have gi: "goal_index c i = Inr (int (spec_goal_index c i))"
    and lt: "spec_goal_index c i < length gps" by simp_all
  from assms(3) show ?thesis
    by (auto simp: reset_agent_def gi py_getitem_nat [OF lt] Let_def
          split: option.splits)
qed

lemma reset_agent_None_total:
  assumes "1 \<le> agents_with_same_goal c" "i < length gps"
  shows "\<exists>a'. reset_agent c None gps i a = Inr a'"
proof -
  from goal_index_valid [OF assms(1,2)]
  have gi: "goal_index c i = Inr (int (spec_goal_index c i))"
    and lt: "spec_goal_index c i < length gps" by simp_all
  show ?thesis
    by (simp add: reset_agent_def gi py_getitem_nat [OF lt] Let_def)
qed

lemma length_reset_goal_poses: "length (reset_goal_poses sp f ei s) = length (agents s)"
  by (simp add: reset_goal_poses_def Let_def length_draw_goal_poses length_spawn)

text \<open>
  C4. At reset, agent \<open>i\<close> gets the goal position \<open>goal_poses[i div agents_with_same_goal]\<close>
  when \<open>split_goals\<close> is set, and otherwise \<open>goal_poses[0]\<close> for \<open>i < agents_with_same_goal\<close>
  and \<open>goal_poses[i]\<close> for the others. A reset of the whole batch always returns and
  leaves exactly that position in the agent's goal; a reset of one environment writes it
  at that environment's index. With split goals and two agents per goal, agents 0 and 1
  get goal 0 and agents 2 and 3 get goal 1; with all agents sharing and no split, every
  agent gets goal 0.
\<close>

theorem goal_assignment_at_reset:
  assumes "1 \<le> agents_with_same_goal (config s)" and "i < length (agents s)"
  shows "goal_index (config s) i = Inr (int (spec_goal_index (config s) i))
    \<and> (\<exists>s'. reset_world_at spawned find_pos None s = Inr s'
           \<and> length (agents s') = length (agents s)
           \<and> goal_pos (agents s' ! i)
               = reset_goal_poses spawned find_pos None s ! spec_goal_index (config s) i)
    \<and> (\<forall>e s'. reset_world_at spawned find_pos (Some e) s = Inr s' \<longrightarrow>
           length (agents s') = length (agents s)
           \<and> goal_pos (agents s' ! i)
               = set_pos (reset_goal_poses spawned find_pos (Some e) s
                            ! spec_goal_index (config s) i)
                   (Some e) (goal_pos (agents s ! i)))
    \<and> (split_goals (config s) \<and> agents_with_same_goal (config s) = 2 \<longrightarrow>
         goal_index (config s) 0 = Inr 0 \<and> goal_index (config s) 1 = Inr 0
         \<and> goal_index (config s) 2 = Inr 1 \<and> goal_index (config s) 3 = Inr 1)
    \<and> (\<not> split_goals (config s)
         \<and> agents_with_same_goal (config s) = int (length (agents s)) \<longrightarrow>
         goal_index (config s) i = Inr 0)"
proof -
  let ?c = "config s"
  let ?n = "length (agents s)"
  have A: "goal_index ?c i = Inr (int (spec_goal_index ?c i))"
    using goal_index_valid [OF assms] by simp
  have step: "length (agents s') = ?n
      \<and> goal_pos (agents s' ! i)
          = set_pos (reset_goal_poses spawned find_pos ei s ! spec_goal_index ?c i) ei
              (goal_pos (agents s ! i))"
    if r: "reset_world_at spawned find_pos ei s = Inr s'" for ei s'
  proof -
    let ?as1 = "spawn_entities_randomly spawned ei (agents s)"
    let ?gps = "reset_goal_poses spawned find_pos ei s"
    from reset_world_at_Inr(2) [OF r]
    have ra: "reset_agents ?c ei ?gps 0 ?as1 = Inr (agents s')" .
    from reset_agents_nth [OF ra] assms(2)
    have len: "length (agents s') = ?n"
      and one: "reset_agent ?c ei ?gps i (?as1 ! i) = Inr (agents s' ! i)"
      by (simp_all add: length_spawn)
    have "i < length ?gps" using assms(2) by (simp add: length_reset_goal_poses)
    from reset_agent_goal_pos [OF assms(1) this one]
    have "goal_pos (agents s' ! i) = set_pos (?gps ! spec_goal_index ?c i) ei (goal_pos (?as1 ! i))" .
    with len show ?thesis using assms(2) by (simp add: nth_spawn)
  qed
  have B: "\<exists>s'. reset_world_at spawned find_pos None s = Inr s'
           \<and> length (agents s') = ?n
           \<and> goal_pos (agents s' ! i)
               = reset_goal_poses spawned find_pos None s ! spec_goal_index ?c i"
  proof -
    let ?as1 = "spawn_entities_randomly spawned None (agents s)"
    let ?gps = "reset_goal_poses spawned find_pos None s"
    have "\<forall>j<length ?as1. \<exists>a'. reset_agent ?c None ?gps (0 + j) (?as1 ! j) = Inr a'"
      using reset_agent_None_total [OF assms(1)]
      by (simp add: length_spawn length_reset_goal_poses)
    from reset_agents_total [OF this] obtain as2
      where "reset_agents ?c None ?gps 0 ?as1 = Inr as2" by blast
    from reset_world_at_None [OF this]
    have r: "reset_world_at spawned find_pos None s = Inr (s\<lparr>agents := as2\<rparr>)" .
    from step [OF r] r show ?thesis by (auto simp: set_pos_def)
  qed
  have C: "\<forall>e s'. reset_world_at spawned find_pos (Some e) s = Inr s' \<longrightarrow>
           length (agents s') = ?n
           \<and> goal_pos (agents s' ! i)
               = set_pos (reset_goal_poses spawned find_pos (Some e) s ! spec_goal_index ?c i)
                   (Some e) (goal_pos (agents s ! i))"
    using step by blast
  have D: "split_goals ?c \<and> agents_with_same_goal ?c = 2 \<longrightarrow>
         goal_index ?c 0 = Inr 0 \<and> goal_index ?c 1 = Inr 0
         \<and> goal_index ?c 2 = Inr 1 \<and> goal_index ?c 3 = Inr 1"
    by (simp add: goal_index_def)
  have E: "\<not> split_goals ?c \<and> agents_with_same_goal ?c = int ?n \<longrightarrow> goal_index ?c i = Inr 0"
    using assms(2) by (simp add: goal_index_def)
  from A B C D E show ?thesis by blast
qed


lemma split_world_facts:
  "config split_world = split_config" "batch_dim split_world = 1"
  "agents split_world = replicate 4 (built_agent 1 (1 / 20) split_config)"
  by (simp_all add: split_world_def make_world_cases config_rule_defs split_config_def
        BaseNavigationConfig_defaults_def)

lemma split_goal_poses:
  "reset_goal_poses (\<lambda>i. [(0, 0)]) count_pos None split_world
     = [ [(4, 0)], [(5, 0)], [(6, 0)], [(7, 0)] ]"
  by (simp add: reset_goal_poses_def split_world_facts spawn_entities_randomly_def
        enumerate_eq_zip count_pos_def Let_def eval_nat_numeral upt_rec numeral_eq_Suc)

theorem goal_assignment_at_reset_witness:
  "1 \<le> agents_with_same_goal (config split_world) \<and> 2 < length (agents split_world)
   \<and> goal_index (config split_world) 2 = Inr 1
   \<and> (\<exists>s'. reset_world_at (\<lambda>i. [(0, 0)]) count_pos None split_world = Inr s'
          \<and> goal_pos (agents s' ! 2) = [(5, 0)])"
proof -
  have h1: "1 \<le> agents_with_same_goal (config split_world)"
    by (simp add: split_world_facts split_config_def)
  have h2: "2 < length (agents split_world)"
    by (simp add: split_world_facts)
  have ix: "spec_goal_index (config split_world) 2 = 1"
    by (simp add: spec_goal_index_def split_world_facts split_config_def)
  from goal_assignment_at_reset [OF h1 h2, of "\<lambda>i. [(0, 0)]" count_pos] h1 h2
  show ?thesis
    by (auto simp: ix split_goal_poses)
qed

section \<open>A reset of one environment leaves the others alone\<close>

lemma reset_agent_Some:
  assumes "reset_agent c (Some e) gps i a = Inr a'"
  shows "\<exists>gi gp ps. goal_index c i = Inr gi \<and> py_getitem gps gi = Inr gp
           \<and> pos_shaping a = Some ps
           \<and> a' = a\<lparr>goal_pos := set_pos gp (Some e) (goal_pos a),
                    pos_shaping := Some (ps[e := vector_norm
                       (sub2 (pos a ! e) (set_pos gp (Some e) (goal_pos a) ! e))
                         * pos_shaping_factor c])\<rparr>"
  using assms
  by (auto simp: reset_agent_def Let_def split: sum.splits option.splits)

lemma set_pos_Some_other:
  "e' \<noteq> e \<Longrightarrow> set_pos new (Some e) old ! e' = old ! e'"
  by (simp add: set_pos_def split: list.splits)

lemma length_set_pos_Some: "length (set_pos new (Some e) old) = length old"
  by (simp add: set_pos_def split: list.splits)

lemma set_pos_Some_same:
  "e < length old \<Longrightarrow>
     set_pos new (Some e) old ! e = (case new of [] \<Rightarrow> old ! e | p # ps \<Rightarrow> p)"
  by (simp add: set_pos_def split: list.splits)

lemma reset_agent_frame:
  assumes "reset_agent c (Some e) gps i a = Inr a'" and "e' \<noteq> e"
  shows "goal_pos a' ! e' = goal_pos a ! e'" and "shaping_at e' a' = shaping_at e' a"
    and "pos a' = pos a" and "length (goal_pos a') = length (goal_pos a)"
    and "map_option length (pos_shaping a') = map_option length (pos_shaping a)"
  using reset_agent_Some [OF assms(1)] assms(2)
  by (auto simp: set_pos_Some_other shaping_at_def length_set_pos_Some)

lemma reset_agent_local:
  assumes a: "reset_agent c (Some e) gps i a = Inr a'"
    and b: "reset_agent c (Some e) gps i b = Inr b'"
    and eq: "placed_at e a = placed_at e b"
    and la: "wf_agent bd a" and lb: "wf_agent bd' b" and e: "e < bd" and e': "e < bd'"
  shows "placed_at e a' = placed_at e b' \<and> shaping_at e a' = shaping_at e b'"
proof -
  from reset_agent_Some [OF a] obtain gi gp ps where
    A: "goal_index c i = Inr gi" "py_getitem gps gi = Inr gp" "pos_shaping a = Some ps"
      "a' = a\<lparr>goal_pos := set_pos gp (Some e) (goal_pos a),
               pos_shaping := Some (ps[e := vector_norm
                  (sub2 (pos a ! e) (set_pos gp (Some e) (goal_pos a) ! e))
                    * pos_shaping_factor c])\<rparr>"
    by blast
  from reset_agent_Some [OF b] A(1,2) obtain qs where
    B: "pos_shaping b = Some qs"
      "b' = b\<lparr>goal_pos := set_pos gp (Some e) (goal_pos b),
               pos_shaping := Some (qs[e := vector_norm
                  (sub2 (pos b ! e) (set_pos gp (Some e) (goal_pos b) ! e))
                    * pos_shaping_factor c])\<rparr>"
    by auto
  have len: "e < length (goal_pos a)" "e < length (goal_pos b)" "e < length ps" "e < length qs"
    using la lb e e' A(3) B(1) by (auto simp: wf_agent_def)
  have g: "set_pos gp (Some e) (goal_pos a) ! e = set_pos gp (Some e) (goal_pos b) ! e"
    using eq len by (simp add: set_pos_Some_same placed_at_def split: list.splits)
  show ?thesis
    using eq g len by (simp add: A(4) B(2) placed_at_def shaping_at_def)
qed


lemma wf_agent_spawn:
  "list_all (wf_agent bd) as \<Longrightarrow>
     list_all (wf_agent bd) (spawn_entities_randomly sp (Some e) as)"
  by (auto simp: list_all_length length_spawn nth_spawn wf_agent_def length_set_pos_Some)

lemma placed_at_spawn:
  assumes "list_all2 (\<lambda>a b. placed_at e a = placed_at e b) as bs"
    and "list_all (wf_agent bd) as" and "list_all (wf_agent bd') bs" and "e < bd" and "e < bd'"
  shows "list_all2 (\<lambda>a b. placed_at e a = placed_at e b)
           (spawn_entities_randomly sp (Some e) as) (spawn_entities_randomly sp (Some e) bs)"
  using assms
  by (auto simp: list_all2_conv_all_nth list_all_length length_spawn nth_spawn placed_at_def
        wf_agent_def set_pos_Some_same split: list.splits)

lemma placed_at_pos_slice:
  "list_all2 (\<lambda>a b. placed_at e a = placed_at e b) as bs \<Longrightarrow>
     map (\<lambda>a. pos a ! e) as = map (\<lambda>a. pos a ! e) bs"
  by (induction rule: list_all2_induct) (auto simp: placed_at_def)

lemma reset_goal_poses_Some:
  "e < batch_dim s \<Longrightarrow>
     reset_goal_poses sp f (Some e) s
       = draw_goal_poses f (length (agents s))
           [map (\<lambda>a. pos a ! e) (spawn_entities_randomly sp (Some e) (agents s))]"
  by (simp add: reset_goal_poses_def Let_def length_spawn)


text \<open>
  C10. A reset of environment \<open>e\<close> alone changes goal positions and shaping baselines
  at index \<open>e\<close> only: at every other index, every agent's goal position and shaping
  baseline are as before. What it leaves at index \<open>e\<close> does not depend on the other
  environments: two worlds with the same configuration that agree on the agents' and
  goals' positions at index \<open>e\<close> (and may differ anywhere else, also in batch size)
  agree at index \<open>e\<close> after the reset, given the same random choices.
\<close>

theorem reset_world_at_env_frame:
  assumes r: "reset_world_at spawned find_pos (Some e) s = Inr s'" and wf: "wf_scenario s"
  shows "e < batch_dim s \<and> batch_dim s' = batch_dim s \<and> config s' = config s
    \<and> length (agents s') = length (agents s)
    \<and> (\<forall>i<length (agents s). \<forall>e'. e' \<noteq> e \<longrightarrow>
          goal_pos (agents s' ! i) ! e' = goal_pos (agents s ! i) ! e'
          \<and> shaping_at e' (agents s' ! i) = shaping_at e' (agents s ! i))
    \<and> (\<forall>t t'. reset_world_at spawned find_pos (Some e) t = Inr t' \<and> wf_scenario t
           \<and> config t = config s
           \<and> list_all2 (\<lambda>a b. placed_at e a = placed_at e b) (agents s) (agents t) \<longrightarrow>
          list_all2 (\<lambda>a b. placed_at e a = placed_at e b \<and> shaping_at e a = shaping_at e b)
            (agents s') (agents t'))"
proof -
  let ?sp = "spawn_entities_randomly spawned (Some e)"
  have e: "e < batch_dim s" using reset_world_at_Inr(3) [OF r] by simp
  have same: "batch_dim s' = batch_dim s" "config s' = config s"
    using reset_world_at_Inr(1) [OF r] by (metis scenario.select_convs scenario.surjective
        scenario.update_convs)+
  from reset_agents_nth [OF reset_world_at_Inr(2) [OF r] ]
  have len: "length (agents s') = length (agents s)"
    and each: "\<And>i. i < length (agents s) \<Longrightarrow>
        reset_agent (config s) (Some e) (reset_goal_poses spawned find_pos (Some e) s) i
          (?sp (agents s) ! i) = Inr (agents s' ! i)"
    by (simp_all add: length_spawn)
  have frame: "goal_pos (agents s' ! i) ! e' = goal_pos (agents s ! i) ! e'
               \<and> shaping_at e' (agents s' ! i) = shaping_at e' (agents s ! i)"
    if "i < length (agents s)" "e' \<noteq> e" for i e'
    using reset_agent_frame(1,2) [OF each [OF that(1)] that(2)] that(1)
    by (simp add: nth_spawn shaping_at_def)
  have indep: "list_all2 (\<lambda>a b. placed_at e a = placed_at e b \<and> shaping_at e a = shaping_at e b)
                 (agents s') (agents t')"
    if rt: "reset_world_at spawned find_pos (Some e) t = Inr t'" and wft: "wf_scenario t"
      and c: "config t = config s"
      and eq: "list_all2 (\<lambda>a b. placed_at e a = placed_at e b) (agents s) (agents t)"
    for t t'
  proof -
    have et: "e < batch_dim t" using reset_world_at_Inr(3) [OF rt] by simp
    have n: "length (agents t) = length (agents s)"
      using eq by (simp add: list_all2_lengthD)
    have was: "list_all (wf_agent (batch_dim s)) (agents s)"
      and wat: "list_all (wf_agent (batch_dim t)) (agents t)"
      using wf wft by (simp_all add: wf_scenario_def)
    from placed_at_spawn [OF eq was wat e et]
    have eq1: "list_all2 (\<lambda>a b. placed_at e a = placed_at e b)
                 (?sp (agents s)) (?sp (agents t))" .
    have gps: "reset_goal_poses spawned find_pos (Some e) t
                 = reset_goal_poses spawned find_pos (Some e) s"
      using placed_at_pos_slice [OF eq1] n
      by (simp add: reset_goal_poses_Some [OF e] reset_goal_poses_Some [OF et])
    from reset_agents_nth [OF reset_world_at_Inr(2) [OF rt] ]
    have lent: "length (agents t') = length (agents s)"
      and eacht: "\<And>i. i < length (agents s) \<Longrightarrow>
        reset_agent (config s) (Some e) (reset_goal_poses spawned find_pos (Some e) s) i
          (?sp (agents t) ! i) = Inr (agents t' ! i)"
      by (simp_all add: length_spawn n c gps)
    have "placed_at e (agents s' ! i) = placed_at e (agents t' ! i)
          \<and> shaping_at e (agents s' ! i) = shaping_at e (agents t' ! i)"
      if i: "i < length (agents s)" for i
    proof (rule reset_agent_local [OF each [OF i] eacht [OF i] _ _ _ e et])
      show "placed_at e (?sp (agents s) ! i) = placed_at e (?sp (agents t) ! i)"
        using eq1 i by (simp add: list_all2_conv_all_nth length_spawn)
      show "wf_agent (batch_dim s) (?sp (agents s) ! i)"
        using wf_agent_spawn [OF was, of spawned e] i by (simp add: list_all_length length_spawn)
      show "wf_agent (batch_dim t) (?sp (agents t) ! i)"
        using wf_agent_spawn [OF wat, of spawned e] i n by (simp add: list_all_length length_spawn)
    qed
    then show ?thesis using len lent by (simp add: list_all2_conv_all_nth)
  qed
  from e same len frame indep show ?thesis by blast
qed


lemma reset_agent_Some_total:
  assumes "1 \<le> agents_with_same_goal c" "i < length gps" "pos_shaping a \<noteq> None"
  shows "\<exists>a'. reset_agent c (Some e) gps i a = Inr a'"
proof -
  from goal_index_valid [OF assms(1,2)]
  have gi: "goal_index c i = Inr (int (spec_goal_index c i))"
    and lt: "spec_goal_index c i < length gps" by simp_all
  from assms(3) show ?thesis
    by (auto simp: reset_agent_def gi py_getitem_nat [OF lt] Let_def)
qed

lemma reset_world_at_Some_total:
  assumes e: "e < batch_dim s" and g: "1 \<le> agents_with_same_goal (config s)"
    and sh: "list_all (\<lambda>a. pos_shaping a \<noteq> None) (agents s)"
  shows "\<exists>s'. reset_world_at sp f (Some e) s = Inr s'"
proof -
  let ?as1 = "spawn_entities_randomly sp (Some e) (agents s)"
  let ?gps = "reset_goal_poses sp f (Some e) s"
  have "\<forall>j<length ?as1. \<exists>a'. reset_agent (config s) (Some e) ?gps (0 + j) (?as1 ! j) = Inr a'"
    using reset_agent_Some_total [OF g] sh
    by (simp add: length_spawn length_reset_goal_poses nth_spawn list_all_length)
  from reset_agents_total [OF this] obtain as2
    where "reset_agents (config s) (Some e) ?gps 0 ?as1 = Inr as2" by blast
  then show ?thesis
    using e by (simp add: reset_world_at_def reset_goal_poses_def Let_def)
qed

lemma pair_world_wf: "wf_scenario pair_world" "wf_scenario pair_world_moved"
  by (simp_all add: wf_scenario_def wf_agent_def pair_world_def pair_world_moved_def
        pair_scenario_def pair_agent_def)

theorem reset_world_at_env_frame_witness:
  "wf_scenario pair_world
   \<and> (\<exists>s' t'. reset_world_at (\<lambda>i. [(real i, 5)]) count_pos (Some 1) pair_world = Inr s'
         \<and> reset_world_at (\<lambda>i. [(real i, 5)]) count_pos (Some 1) pair_world_moved = Inr t'
         \<and> goal_pos (agents s' ! 0) ! 0 = (7, 7) \<and> goal_pos (agents s' ! 1) ! 0 = (8, 8)
         \<and> shaping_at 0 (agents s' ! 0) = Some 3 \<and> shaping_at 0 (agents s' ! 1) = Some 4
         \<and> list_all2 (\<lambda>a b. placed_at 1 a = placed_at 1 b \<and> shaping_at 1 a = shaping_at 1 b)
             (agents s') (agents t'))"
proof -
  let ?sp = "\<lambda>i::nat. [(real i, 5::real)]"
  have facts: "batch_dim pair_world = 2" "batch_dim pair_world_moved = 2"
    "config pair_world = pair_config" "config pair_world_moved = pair_config"
    "agents_with_same_goal pair_config = 1"
    by (simp_all add: pair_world_def pair_world_moved_def pair_scenario_def pair_config_def
          BaseNavigationConfig_defaults_def)
  have sh: "list_all (\<lambda>a. pos_shaping a \<noteq> None) (agents pair_world)"
    "list_all (\<lambda>a. pos_shaping a \<noteq> None) (agents pair_world_moved)"
    by (simp_all add: pair_world_def pair_world_moved_def pair_scenario_def pair_agent_def)
  obtain s' where s': "reset_world_at ?sp count_pos (Some 1) pair_world = Inr s'"
    using reset_world_at_Some_total [of 1 pair_world ?sp count_pos] sh(1)
    by (auto simp: facts)
  obtain t' where t': "reset_world_at ?sp count_pos (Some 1) pair_world_moved = Inr t'"
    using reset_world_at_Some_total [of 1 pair_world_moved ?sp count_pos] sh(2)
    by (auto simp: facts)
  have eq: "list_all2 (\<lambda>a b. placed_at 1 a = placed_at 1 b)
              (agents pair_world) (agents pair_world_moved)"
    by (simp add: pair_world_def pair_world_moved_def pair_scenario_def pair_agent_def
          placed_at_def)
  have old: "goal_pos (agents pair_world ! 0) ! 0 = (7, 7)"
    "goal_pos (agents pair_world ! 1) ! 0 = (8, 8)"
    "shaping_at 0 (agents pair_world ! 0) = Some 3"
    "shaping_at 0 (agents pair_world ! 1) = Some 4"
    "length (agents pair_world) = 2"
    by (simp_all add: pair_world_def pair_scenario_def pair_agent_def shaping_at_def)
  from reset_world_at_env_frame [OF s' pair_world_wf(1)]
  have frame: "\<forall>i<length (agents pair_world). \<forall>e'. e' \<noteq> 1 \<longrightarrow>
          goal_pos (agents s' ! i) ! e' = goal_pos (agents pair_world ! i) ! e'
          \<and> shaping_at e' (agents s' ! i) = shaping_at e' (agents pair_world ! i)"
    and indep: "\<forall>t t'. reset_world_at ?sp count_pos (Some 1) t = Inr t' \<and> wf_scenario t
           \<and> config t = config pair_world
           \<and> list_all2 (\<lambda>a b. placed_at 1 a = placed_at 1 b) (agents pair_world) (agents t) \<longrightarrow>
          list_all2 (\<lambda>a b. placed_at 1 a = placed_at 1 b \<and> shaping_at 1 a = shaping_at 1 b)
            (agents s') (agents t')"
    by blast+
  from frame [rule_format, of 0 0] frame [rule_format, of 1 0] old
  have f: "goal_pos (agents s' ! 0) ! 0 = (7, 7)" "goal_pos (agents s' ! 1) ! 0 = (8, 8)"
    "shaping_at 0 (agents s' ! 0) = Some 3" "shaping_at 0 (agents s' ! 1) = Some 4"
    by simp_all
  from indep [rule_format, of pair_world_moved t'] t' pair_world_wf(2) eq
  have i: "list_all2 (\<lambda>a b. placed_at 1 a = placed_at 1 b \<and> shaping_at 1 a = shaping_at 1 b)
             (agents s') (agents t')"
    by (simp add: facts)
  from s' t' f i pair_world_wf(1) show ?thesis by blast
qed

section \<open>Termination check\<close>

lemma vector_norm_less_iff:
  "0 < r \<Longrightarrow> vector_norm v < r \<longleftrightarrow> (fst v)\<^sup>2 + (snd v)\<^sup>2 < r\<^sup>2"
proof -
  assume r: "0 < r"
  have "vector_norm v < r \<longleftrightarrow> sqrt ((fst v)\<^sup>2 + (snd v)\<^sup>2) < sqrt (r\<^sup>2)"
    using r by (simp add: vector_norm_def)
  also have "\<dots> \<longleftrightarrow> (fst v)\<^sup>2 + (snd v)\<^sup>2 < r\<^sup>2"
    by (rule real_sqrt_less_iff)
  finally show ?thesis .
qed

lemma nth_goal_distance:
  "e < length (pos a) \<Longrightarrow> e < length (goal_pos a) \<Longrightarrow>
     goal_distance a ! e = vector_norm (sub2 (pos a ! e) (goal_pos a ! e))"
  by (simp add: goal_distance_def)

lemma length_goal_distance:
  "length (goal_distance a) = min (length (pos a)) (length (goal_pos a))"
  by (simp add: goal_distance_def)

lemma nth_all_last_dim:
  "e < bd \<Longrightarrow> all_last_dim bd rows ! e = list_all (\<lambda>g. g ! e) rows"
  by (simp add: all_last_dim_def)

text \<open>
  C1 (as the code has it). \<^verbatim>\<open>done()\<close> returns, for every environment, whether every
  agent's Euclidean distance to its goal's position is strictly less than the agent's
  own radius (\<^verbatim>\<open>agent.shape.radius\<close>, not the goal's radius); it leaves the scenario
  as it was.
\<close>

theorem done_iff_within_agent_radius:
  assumes "agents s \<noteq> []" and "wf_scenario s"
  shows "\<exists>flags. scenario_done s = Inr (flags, s) \<and> length flags = batch_dim s
           \<and> (\<forall>e<batch_dim s. flags ! e \<longleftrightarrow> within_agent_radius e s)"
proof -
  let ?rows = "map (\<lambda>a. map (\<lambda>d. d < radius a) (goal_distance a)) (agents s)"
  have "all_last_dim (batch_dim s) ?rows ! e \<longleftrightarrow> within_agent_radius e s"
    if e: "e < batch_dim s" for e
  proof -
    have "map (\<lambda>d. d < radius a) (goal_distance a) ! e
            \<longleftrightarrow> vector_norm (sub2 (pos a ! e) (goal_pos a ! e)) < radius a"
      if "a \<in> set (agents s)" for a
    proof -
      from that assms(2) e have "e < length (pos a)" "e < length (goal_pos a)"
        by (auto simp: wf_scenario_def wf_agent_def list_all_iff)
      then show ?thesis
        by (simp add: length_goal_distance nth_goal_distance)
    qed
    then show ?thesis
      by (simp add: nth_all_last_dim [OF e] within_agent_radius_def list_all_iff)
  qed
  then show ?thesis
    using assms(1) by (simp add: scenario_done_def all_last_dim_def)
qed

lemma near_world_facts:
  "agents near_world \<noteq> []" "wf_scenario near_world" "batch_dim near_world = 2"
  by (simp_all add: near_world_def pair_scenario_def pair_agent_def wf_scenario_def
        wf_agent_def)

lemma vector_norm_eqI:
  "0 \<le> c \<Longrightarrow> (fst v)\<^sup>2 + (snd v)\<^sup>2 = c\<^sup>2 \<Longrightarrow> vector_norm v = c"
  by (simp add: vector_norm_def real_sqrt_unique)

lemma vector_norm_sub2_self: "vector_norm (sub2 p p) = 0"
  by (simp add: vector_norm_def sub2_def)

lemma near_world_distance: "vector_norm (sub2 (0, 0) (3 / 100, 1 / 25)) = 1 / 20"
  by (rule vector_norm_eqI) (simp_all add: sub2_def power2_eq_square)

lemma near_world_within:
  "within_agent_radius 0 near_world" "within_agent_radius 1 near_world"
  "\<not> within_goal_radius 0 near_world"
  by (simp_all add: within_agent_radius_def within_goal_radius_def near_world_def
        pair_scenario_def pair_agent_def near_world_distance vector_norm_sub2_self)

theorem done_iff_within_agent_radius_witness:
  "agents near_world \<noteq> [] \<and> wf_scenario near_world
   \<and> scenario_done near_world = Inr ([True, True], near_world)"
proof -
  from done_iff_within_agent_radius [OF near_world_facts(1,2)]
  obtain flags where f: "scenario_done near_world = Inr (flags, near_world)"
      "length flags = 2" "\<forall>e<2. flags ! e \<longleftrightarrow> within_agent_radius e near_world"
    by (auto simp: near_world_facts(3))
  from f(3) near_world_within have "flags ! 0" "flags ! 1" by simp_all
  with f(2) have "flags = [True, True]"
    by (cases flags; cases "tl flags") auto
  with f(1) near_world_facts show ?thesis by simp
qed

theorem done_goal_radius_counterexample:
  "scenario_done near_world = Inr ([True, True], near_world)
   \<and> \<not> within_goal_radius 0 near_world"
proof -
  have "[0..<batch_dim near_world] = [0, 1]"
    by (simp add: near_world_facts(3) upt_rec numeral_eq_Suc)
  then have "scenario_done near_world = Inr ([True, True], near_world)"
    by (simp add: scenario_done_def all_last_dim_def near_world_facts(1))
       (simp add: near_world_def pair_scenario_def pair_agent_def goal_distance_def
          near_world_distance vector_norm_sub2_self)
  with near_world_within(3) show ?thesis by simp
qed

section \<open>Observation length\<close>

lemma make_world_Inr:
  assumes "make_world bd lr cfg kwargs = Inr s"
  shows "1 \<le> agents_with_same_goal (config s)"
    and "agents_with_same_goal (config s) \<le> n_agents (config s)"
    and "batch_dim s = bd"
    and "agents s = replicate (nat (n_agents (config s))) (built_agent bd lr (config s))"
    and "pos_rew s = replicate bd 0" and "final_rew s = replicate bd 0"
    and "0 < bd" and "0 < agent_radius (config s)"
proof -
  from assms obtain c where c: "proposed_config cfg kwargs = Some c"
    by (cases "proposed_config cfg kwargs") (auto simp: make_world_resolve split: if_splits)
  from assms c have b: "build_world bd lr c = Inr s"
    by (simp add: make_world_resolve split: if_splits)
  have ok: "\<not> grouping_out_of_range c" "\<not> grouped_and_colliding c" "\<not> bad_split c"
    using b build_world_refused [of c bd lr] by auto
  from b have s: "bd \<noteq> 0" "\<not> agent_radius c \<le> 0"
      "s = \<lparr> config = c, batch_dim = bd, plot_grid = False,
                 min_distance_between_entities = agent_radius c * 2 + 5 / 100,
                 min_collision_distance = 5 / 1000,
                 x_semidim = (if enforce_bounds c then Some (world_spawning_x c) else None),
                 y_semidim = (if enforce_bounds c then Some (world_spawning_y c) else None),
                 agents = replicate (nat (n_agents c)) (built_agent bd lr c),
                 pos_rew = replicate bd 0, final_rew = replicate bd 0,
                 all_goal_reached = None \<rparr>"
    unfolding build_world_accepted [OF ok] by (simp_all split: if_splits)
  have cs: "config s = c" by (subst s(3)) simp
  show "batch_dim s = bd" by (subst s(3)) simp
  show "agents s = replicate (nat (n_agents (config s))) (built_agent bd lr (config s))"
    unfolding cs by (subst s(3)) simp
  show "pos_rew s = replicate bd 0" by (subst s(3)) simp
  show "final_rew s = replicate bd 0" by (subst s(3)) simp
  show "0 < bd" using s(1) by simp
  show "0 < agent_radius (config s)" using s(2) cs by simp
  show "1 \<le> agents_with_same_goal (config s)"
    "agents_with_same_goal (config s) \<le> n_agents (config s)"
    using ok(1) cs by (auto simp: grouping_out_of_range_def)
qed

lemma make_world_world_of_config:
  assumes "make_world bd lr cfg kwargs = Inr s"
  shows "world_of_config s"
  using make_world_Inr [OF assms]
  by (auto simp: world_of_config_def wf_scenario_def wf_agent_def list_all_iff
        built_agent_def new_agent_def)

lemma length_concat_pairs:
  assumes "\<forall>t\<in>set ts. length (t ! e) = 2"
  shows "length (concat (map (\<lambda>t. t ! e) ts)) = 2 * length ts"
  using assms by (induction ts) auto

lemma length_flat_nth:
  "e < length ps \<Longrightarrow> length (map flat ps ! e) = 2"
  by (simp add: flat_def)

text \<open>
  C7. For a world of a fixed configuration, \<^verbatim>\<open>observation(agent)\<close> returns, for every
  agent and every environment, a vector of length
  \<open>4 + (2 * n_agents if observe_all_goals else 2) + (n_lidar_rays if collisions else 0)\<close>,
  the lidar returning one reading per ray.
\<close>

theorem observation_length_constant:
  assumes w: "world_of_config s" and k: "k < length (agents s)"
    and m: "collisions (config s) \<longrightarrow> lidar_contract s (lidar_measure k)"
  shows "\<exists>obs. observation lidar_measure s k = Inr obs \<and> length obs = batch_dim s
           \<and> list_all (\<lambda>row. int (length row) = observation_length (config s)) obs"
proof -
  let ?agent = "agents s ! k"
  let ?bd = "batch_dim s"
  let ?goal_poses = "if observe_all_goals (config s)
      then map (\<lambda>a. map2 sub2 (pos ?agent) (goal_pos a)) (agents s)
      else [map2 sub2 (pos ?agent) (goal_pos ?agent)]"
  let ?own = "[map flat (pos ?agent), map flat (vel ?agent)] @ map (map flat) ?goal_poses"
  have wfa: "\<And>a. a \<in> set (agents s) \<Longrightarrow> wf_agent ?bd a"
    using w by (simp add: world_of_config_def wf_scenario_def list_all_iff)
  have wfk: "wf_agent ?bd ?agent" using wfa k by simp
  have n: "int (length (agents s)) = n_agents (config s)"
    using w by (simp add: world_of_config_def)
  have own2: "\<forall>t\<in>set ?own. length (t ! e) = 2" if e: "e < ?bd" for e
    using wfk wfa e by (auto simp: wf_agent_def flat_def)
  have own_len: "int (length (concat (map (\<lambda>t. t ! e) ?own)))
                   = 4 + (if observe_all_goals (config s) then 2 * n_agents (config s) else 2)"
    if e: "e < ?bd" for e
    using length_concat_pairs [OF own2 [OF e] ] n by simp
  show ?thesis
  proof (cases "collisions (config s)")
    case False
    then have "observation lidar_measure s k = Inr (cat_last_dim ?bd ?own)"
      using k by (simp add: observation_def Let_def)
    moreover have "list_all (\<lambda>row. int (length row) = observation_length (config s))
                     (cat_last_dim ?bd ?own)"
      using own_len False by (simp add: cat_last_dim_def list_all_iff observation_length_def)
    ultimately show ?thesis by (simp add: cat_last_dim_def)
  next
    case True
    with w k obtain l ls where l: "sensors ?agent = l # ls"
      by (auto simp: world_of_config_def list_all_length neq_Nil_conv)
    let ?lid = "map (map (\<lambda>m. max_range l - m)) (lidar_measure k)"
    from True m have lc: "length (lidar_measure k) = ?bd"
      "\<And>e. e < ?bd \<Longrightarrow> int (length (lidar_measure k ! e)) = n_lidar_rays (config s)"
      by (auto simp: lidar_contract_def list_all_length)
    have "observation lidar_measure s k = Inr (cat_last_dim ?bd (?own @ [?lid]))"
      using k True l by (simp add: observation_def Let_def)
    moreover have "list_all (\<lambda>row. int (length row) = observation_length (config s))
                     (cat_last_dim ?bd (?own @ [?lid]))"
      using own_len lc True by (simp add: cat_last_dim_def list_all_iff observation_length_def)
    ultimately show ?thesis by (simp add: cat_last_dim_def)
  qed
qed


lemma lidar_world_made:
  "make_world 1 (1 / 20) ConfigNone [KW_n_agents 2, KW_n_lidar_rays 3] = Inr lidar_world"
proof -
  have "\<exists>s. make_world 1 (1 / 20) ConfigNone [KW_n_agents 2, KW_n_lidar_rays 3] = Inr s"
    by (simp add: make_world_cases config_rule_defs BaseNavigationConfig_defaults_def)
  then show ?thesis by (auto simp: lidar_world_def)
qed

lemma lidar_world_config:
  "config lidar_world
     = BaseNavigationConfig_defaults\<lparr>n_agents := 2, n_lidar_rays := 3\<rparr>"
  by (simp add: lidar_world_def make_world_cases config_rule_defs
        BaseNavigationConfig_defaults_def)

theorem observation_length_constant_witness:
  "world_of_config lidar_world \<and> 1 < length (agents lidar_world)
   \<and> collisions (config lidar_world) \<and> lidar_contract lidar_world [ [1, 2, 3] ]
   \<and> (\<exists>obs. observation (\<lambda>k. [ [1, 2, 3] ]) lidar_world 1 = Inr obs \<and> length obs = 1
          \<and> list_all (\<lambda>row. length row = 9) obs)"
proof -
  have w: "world_of_config lidar_world"
    by (rule make_world_world_of_config [OF lidar_world_made])
  have bd: "batch_dim lidar_world = 1"
    by (rule make_world_Inr(3) [OF lidar_world_made])
  have k: "1 < length (agents lidar_world)"
    using w by (simp add: world_of_config_def lidar_world_config)
  have m: "collisions (config lidar_world)" "lidar_contract lidar_world [ [1, 2, 3] ]"
    by (simp_all add: lidar_contract_def bd lidar_world_config
          BaseNavigationConfig_defaults_def)
  have len: "observation_length (config lidar_world) = 9"
    by (simp add: observation_length_def lidar_world_config
          BaseNavigationConfig_defaults_def)
  from observation_length_constant [OF w k, of "\<lambda>k. [ [1, 2, 3] ]"] m
  obtain obs where "observation (\<lambda>k. [ [1, 2, 3] ]) lidar_world 1 = Inr obs"
      "length obs = 1" "list_all (\<lambda>row. int (length row) = 9) obs"
    by (auto simp: bd len)
  with w k m show ?thesis by auto
qed

section \<open>The reward engine, call by call\<close>

lemma agent_reward_Some:
  "pos_shaping a = Some ps \<Longrightarrow>
     agent_reward c a =
       Inr (map2 (-) ps (shaping c a),
            a\<lparr>distance_to_goal := Some (goal_distance a),
              on_goal := Some (map (\<lambda>x. x < goal_radius a) (goal_distance a)),
              agent_pos_rew := map2 (-) ps (shaping c a),
              pos_shaping := Some (shaping c a)\<rparr>)"
  by (simp add: agent_reward_def shaping_def Let_def)

lemma agent_reward_None: "pos_shaping a = None \<Longrightarrow> agent_reward c a = Inl AttributeError"
  by (simp add: agent_reward_def Let_def)

lemma reward_loop_Inr:
  assumes "reward_loop c as acc = Inr (as1, pr)"
  shows "length as1 = length as"
    and "\<forall>i<length as. \<exists>ps. pos_shaping (as ! i) = Some ps
           \<and> as1 ! i = (as ! i)\<lparr>distance_to_goal := Some (goal_distance (as ! i)),
                on_goal := Some (map (\<lambda>x. x < goal_radius (as ! i)) (goal_distance (as ! i))),
                agent_pos_rew := map2 (-) ps (shaping c (as ! i)),
                pos_shaping := Some (shaping c (as ! i)),
                agent_collision_rew := map (\<lambda>x. 0) (agent_collision_rew (as ! i))\<rparr>"
    and "pr = fold (\<lambda>a acc. map2 (+) acc (agent_pos_rew a)) as1 acc"
  using assms
proof (induction as arbitrary: acc as1 pr)
  case Nil
  { case 1 then show ?case by simp }
  { case 2 then show ?case by simp }
  { case 3 then show ?case by simp }
next
  case (Cons a as)
  { case 1
    then show ?case using Cons.IH(1)
      by (cases "pos_shaping a") (auto simp: agent_reward_Some agent_reward_None split: sum.splits) }
  { case 2
    then obtain ps as' where ps: "pos_shaping a = Some ps"
      and r: "reward_loop c as (map2 (+) acc (map2 (-) ps (shaping c a))) = Inr (as', pr)"
      and e: "as1 = (a\<lparr>distance_to_goal := Some (goal_distance a),
              on_goal := Some (map (\<lambda>x. x < goal_radius a) (goal_distance a)),
              agent_pos_rew := map2 (-) ps (shaping c a),
              pos_shaping := Some (shaping c a),
              agent_collision_rew := map (\<lambda>x. 0) (agent_collision_rew a)\<rparr>) # as'"
      by (cases "pos_shaping a") (auto simp: agent_reward_Some agent_reward_None split: sum.splits)
    show ?case
    proof (intro allI impI)
      fix i assume "i < length (a # as)"
      then show "\<exists>ps. pos_shaping ((a # as) ! i) = Some ps
           \<and> as1 ! i = ((a # as) ! i)\<lparr>distance_to_goal := Some (goal_distance ((a # as) ! i)),
                on_goal := Some (map (\<lambda>x. x < goal_radius ((a # as) ! i))
                                   (goal_distance ((a # as) ! i))),
                agent_pos_rew := map2 (-) ps (shaping c ((a # as) ! i)),
                pos_shaping := Some (shaping c ((a # as) ! i)),
                agent_collision_rew := map (\<lambda>x. 0) (agent_collision_rew ((a # as) ! i))\<rparr>"
        using Cons.IH(2) [OF r] ps e by (cases i) auto
    qed }
  { case 3
    then obtain ps as' where ps: "pos_shaping a = Some ps"
      and r: "reward_loop c as (map2 (+) acc (map2 (-) ps (shaping c a))) = Inr (as', pr)"
      and e: "as1 = (a\<lparr>distance_to_goal := Some (goal_distance a),
              on_goal := Some (map (\<lambda>x. x < goal_radius a) (goal_distance a)),
              agent_pos_rew := map2 (-) ps (shaping c a),
              pos_shaping := Some (shaping c a),
              agent_collision_rew := map (\<lambda>x. 0) (agent_collision_rew a)\<rparr>) # as'"
      by (cases "pos_shaping a") (auto simp: agent_reward_Some agent_reward_None split: sum.splits)
    show ?case using Cons.IH(3) [OF r] e by simp }
qed

lemma reward_loop_total:
  "list_all (\<lambda>a. pos_shaping a \<noteq> None) as \<Longrightarrow> \<exists>as1 pr. reward_loop c as acc = Inr (as1, pr)"
proof (induction as arbitrary: acc)
  case Nil
  then show ?case by simp
next
  case (Cons a as)
  then obtain ps where ps: "pos_shaping a = Some ps" by auto
  from Cons obtain as1 pr
    where "reward_loop c as (map2 (+) acc (map2 (-) ps (shaping c a))) = Inr (as1, pr)"
    by fastforce
  then show ?case by (simp add: agent_reward_Some [OF ps])
qed


section \<open>The pair loop\<close>

lemma nth_masked_add:
  "e < length msk \<Longrightarrow> e < length xs \<Longrightarrow>
     masked_add msk v xs ! e = (if msk ! e then xs ! e + v else xs ! e)"
  by (simp add: masked_add_def)

lemma length_masked_add: "length (masked_add msk v xs) = min (length msk) (length xs)"
  by (simp add: masked_add_def)

lemma length_collision_pair: "length (collision_pair cl gd thr pen ij as) = length as"
  by (cases ij) (simp add: collision_pair_def Let_def)

lemma nth_update_at:
  "m < length as \<Longrightarrow> as[i := f (as ! i)] ! m = (if m = i then f (as ! m) else as ! m)"
  by (cases "m = i") simp_all

lemma collision_pair_nth_agent:
  assumes "m < length as"
  shows "collision_pair cl gd thr pen (i, j) as ! m
           = (if j < i \<and> cl i j \<and> (m = i \<or> m = j)
              then (as ! m)\<lparr>agent_collision_rew :=
                     masked_add (map (\<lambda>d. d \<le> thr) (gd i j)) pen (agent_collision_rew (as ! m))\<rparr>
              else as ! m)"
proof (cases "j < i \<and> cl i j")
  case False
  then show ?thesis by (auto simp: collision_pair_def)
next
  case True
  let ?g = "\<lambda>a. a\<lparr>agent_collision_rew :=
                masked_add (map (\<lambda>d. d \<le> thr) (gd i j)) pen (agent_collision_rew a)\<rparr>"
  let ?as1 = "as[i := ?g (as ! i)]"
  have m1: "m < length ?as1" using assms by simp
  have "collision_pair cl gd thr pen (i, j) as = ?as1[j := ?g (?as1 ! j)]"
    using True by (simp add: collision_pair_def Let_def)
  then have "collision_pair cl gd thr pen (i, j) as ! m
               = (if m = j then ?g (?as1 ! m) else ?as1 ! m)"
    using nth_update_at [OF m1, of j ?g] by simp
  also have "?as1 ! m = (if m = i then ?g (as ! m) else as ! m)"
    by (rule nth_update_at [OF assms])
  finally show ?thesis using True by auto
qed

lemma collision_pair_keeps:
  "map without_collision_rew (collision_pair cl gd thr pen ij as) = map without_collision_rew as"
proof -
  obtain i j where ij: "ij = (i, j)" by (cases ij)
  show ?thesis
    unfolding ij
    by (rule nth_equalityI)
       (simp_all add: length_collision_pair collision_pair_nth_agent without_collision_rew_def)
qed

lemma collision_pair_lengths:
  assumes "distance_contract bd gd" and "\<forall>a\<in>set as. length (agent_collision_rew a) = bd"
  shows "\<forall>a\<in>set (collision_pair cl gd thr pen ij as). length (agent_collision_rew a) = bd"
proof -
  obtain i j where ij: "ij = (i, j)" by (cases ij)
  have len: "length (gd i j) = bd"
    using assms(1) by (simp add: distance_contract_def)
  show ?thesis
  proof
    fix a assume "a \<in> set (collision_pair cl gd thr pen ij as)"
    then obtain m where m: "m < length as" "a = collision_pair cl gd thr pen ij as ! m"
      by (auto simp: in_set_conv_nth length_collision_pair)
    have "length (agent_collision_rew (as ! m)) = bd" using assms(2) m(1) by simp
    then show "length (agent_collision_rew a) = bd"
      using m len by (simp add: ij collision_pair_nth_agent length_masked_add)
  qed
qed

lemma collision_pair_nth:
  assumes "distance_contract bd gd" and "\<forall>a\<in>set as. length (agent_collision_rew a) = bd"
    and "k < length as" "e < bd"
  shows "agent_collision_rew (collision_pair cl gd thr pen (i, j) as ! k) ! e
           = agent_collision_rew (as ! k) ! e
             + (if (i = k \<or> j = k) \<and> j < i \<and> cl i j \<and> gd i j ! e \<le> thr then pen else 0)"
proof -
  have len: "length (gd i j) = bd"
    using assms(1) by (simp add: distance_contract_def)
  have lens: "length (agent_collision_rew (as ! k)) = bd"
    using assms(2,3) by simp
  show ?thesis
    using assms(3,4) len lens
    by (auto simp: collision_pair_nth_agent nth_masked_add)
qed


lemma fold_collision_pair_keeps:
  "length (fold (collision_pair cl gd thr pen) ps as) = length as
   \<and> map without_collision_rew (fold (collision_pair cl gd thr pen) ps as)
       = map without_collision_rew as"
  by (induction ps arbitrary: as) (simp_all add: length_collision_pair collision_pair_keeps)

lemma fold_collision_pair_nth:
  assumes "distance_contract bd gd" and "\<forall>a\<in>set as. length (agent_collision_rew a) = bd"
    and "k < length as" "e < bd"
  shows "agent_collision_rew (fold (collision_pair cl gd thr pen) ps as ! k) ! e
           = agent_collision_rew (as ! k) ! e
             + pen * real (length (filter
                 (\<lambda>(i, j). (i = k \<or> j = k) \<and> j < i \<and> cl i j \<and> gd i j ! e \<le> thr) ps))"
  using assms(2,3)
proof (induction ps arbitrary: as)
  case Nil
  then show ?case by simp
next
  case (Cons ij ps)
  obtain i j where ij: "ij = (i, j)" by (cases ij)
  let ?P = "\<lambda>(i, j). (i = k \<or> j = k) \<and> j < i \<and> cl i j \<and> gd i j ! e \<le> thr"
  let ?as1 = "collision_pair cl gd thr pen (i, j) as"
  define hit where "hit \<longleftrightarrow> ?P (i, j)"
  have l1: "\<forall>a\<in>set ?as1. length (agent_collision_rew a) = bd"
    by (rule collision_pair_lengths [OF assms(1) Cons.prems(1)])
  have k1: "k < length ?as1" using Cons.prems(2) by (simp add: length_collision_pair)
  have rest: "agent_collision_rew (fold (collision_pair cl gd thr pen) ps ?as1 ! k) ! e
          = agent_collision_rew (?as1 ! k) ! e + pen * real (length (filter ?P ps))"
    by (rule Cons.IH [OF l1 k1])
  have one: "agent_collision_rew (?as1 ! k) ! e
          = agent_collision_rew (as ! k) ! e + (if hit then pen else 0)"
    unfolding hit_def
    using collision_pair_nth [OF assms(1) Cons.prems(1) Cons.prems(2) assms(4), of cl thr pen i j]
    by simp
  have cnt: "real (length (filter ?P (ij # ps)))
               = (if hit then 1 else 0) + real (length (filter ?P ps))"
    by (simp add: ij hit_def)
  have "agent_collision_rew (fold (collision_pair cl gd thr pen) (ij # ps) as ! k) ! e
          = agent_collision_rew (as ! k) ! e + (if hit then pen else 0)
            + pen * real (length (filter ?P ps))"
    using rest one by (simp add: ij)
  also have "\<dots> = agent_collision_rew (as ! k) ! e + pen * real (length (filter ?P (ij # ps)))"
    unfolding cnt by (simp add: algebra_simps)
  finally show ?case .
qed

lemma triggered_pairs_partners:
  assumes "k < n"
  shows "{(i, j). (i, j) \<in> set (List.product [0..<n] [0..<n])
            \<and> (i = k \<or> j = k) \<and> j < i \<and> cl i j \<and> gd i j ! e \<le> thr}
         = (\<lambda>l. (max k l, min k l)) ` {l. l < n \<and> pair_triggers cl gd thr e k l}"
    (is "?L = ?f ` ?R")
proof (rule set_eqI)
  fix x :: "nat \<times> nat"
  obtain i j where x: "x = (i, j)" by (cases x)
  show "x \<in> ?L \<longleftrightarrow> x \<in> ?f ` ?R"
  proof
    assume "x \<in> ?L"
    then have c: "i < n" "j < n" "i = k \<or> j = k" "j < i" "cl i j" "gd i j ! e \<le> thr"
      by (auto simp: x)
    from c(3) show "x \<in> ?f ` ?R"
    proof
      assume "i = k"
      with c have "j \<in> ?R" "x = ?f j"
        by (auto simp: pair_triggers_def x max_def min_def)
      then show ?thesis by (rule rev_image_eqI)
    next
      assume "j = k"
      with c have "i \<in> ?R" "x = ?f i"
        by (auto simp: pair_triggers_def x max_def min_def)
      then show ?thesis by (rule rev_image_eqI)
    qed
  next
    assume "x \<in> ?f ` ?R"
    then obtain l where l: "l < n" "pair_triggers cl gd thr e k l" "x = ?f l" by auto
    then show "x \<in> ?L"
      using assms by (auto simp: pair_triggers_def x max_def min_def split: if_splits)
  qed
qed

lemma inj_on_partner: "inj_on (\<lambda>l. (max k l, min k l)) A"
  by (auto simp: inj_on_def max_def min_def split: if_splits)

lemma count_triggered_pairs:
  assumes "k < n"
  shows "length (filter (\<lambda>(i, j). (i = k \<or> j = k) \<and> j < i \<and> cl i j \<and> gd i j ! e \<le> thr)
                   (List.product [0..<n] [0..<n]))
         = card {l. l < n \<and> pair_triggers cl gd thr e k l}"
proof -
  let ?P = "\<lambda>(i, j). (i = k \<or> j = k) \<and> j < i \<and> cl i j \<and> gd i j ! e \<le> thr"
  let ?ps = "List.product [0..<n] [0..<n]"
  have "distinct ?ps" by (simp add: distinct_product)
  then have "length (filter ?P ?ps) = card {x \<in> set ?ps. ?P x}"
    by (simp add: distinct_length_filter Int_def conj_commute)
  also have "{x \<in> set ?ps. ?P x}
               = {(i, j). (i, j) \<in> set ?ps \<and> (i = k \<or> j = k) \<and> j < i \<and> cl i j \<and> gd i j ! e \<le> thr}"
    by auto
  also have "\<dots> = (\<lambda>l. (max k l, min k l)) ` {l. l < n \<and> pair_triggers cl gd thr e k l}"
    by (rule triggered_pairs_partners [OF assms])
  also have "card \<dots> = card {l. l < n \<and> pair_triggers cl gd thr e k l}"
    by (rule card_image [OF inj_on_partner])
  finally show ?thesis .
qed

lemma collision_loop_nth:
  assumes "distance_contract bd gd" and "\<forall>a\<in>set as. length (agent_collision_rew a) = bd"
    and "k < length as" "e < bd"
  shows "agent_collision_rew (collision_loop cl gd thr pen as ! k) ! e
           = agent_collision_rew (as ! k) ! e
             + pen * real (card {l. l < length as \<and> pair_triggers cl gd thr e k l})"
  unfolding collision_loop_def
  by (simp add: fold_collision_pair_nth [OF assms] count_triggered_pairs [OF assms(3)])

lemma fold_collision_pair_lengths:
  assumes "distance_contract bd gd"
  shows "\<forall>a\<in>set as. length (agent_collision_rew a) = bd \<Longrightarrow>
     \<forall>a\<in>set (fold (collision_pair cl gd thr pen) ps as). length (agent_collision_rew a) = bd"
proof (induction ps arbitrary: as)
  case Nil
  then show ?case by simp
next
  case (Cons ij ps)
  from collision_pair_lengths [OF assms Cons.prems]
  have "\<forall>a\<in>set (collision_pair cl gd thr pen ij as). length (agent_collision_rew a) = bd" .
  from Cons.IH [OF this] show ?case by simp
qed

lemma collision_loop_lengths:
  assumes "distance_contract bd gd" and "\<forall>a\<in>set as. length (agent_collision_rew a) = bd"
  shows "\<forall>a\<in>set (collision_loop cl gd thr pen as). length (agent_collision_rew a) = bd"
  unfolding collision_loop_def by (rule fold_collision_pair_lengths [OF assms])

lemma collision_loop_keeps:
  "length (collision_loop cl gd thr pen as) = length as"
  "map without_collision_rew (collision_loop cl gd thr pen as) = map without_collision_rew as"
  unfolding collision_loop_def by (simp_all add: fold_collision_pair_keeps)


section \<open>What the first agent's call recomputes\<close>

lemma without_collision_rew_eq:
  "without_collision_rew a = without_collision_rew b \<Longrightarrow>
     a = b\<lparr>agent_collision_rew := agent_collision_rew a\<rparr>"
  by (cases a, cases b) (simp add: without_collision_rew_def)

lemma stack_on_goal_Some:
  "\<forall>a\<in>set as. \<exists>g. on_goal a = Some g \<Longrightarrow>
     \<exists>rows. stack_on_goal as = Inr rows \<and> map Some rows = map on_goal as"
  by (induction as) auto

lemma recompute_unfold:
  assumes "recompute cl gd s = Inr s'"
  obtains as1 pr rows where
    "reward_loop (config s) (agents s) (map (\<lambda>x. 0) (pos_rew s)) = Inr (as1, pr)"
    "stack_on_goal as1 = Inr rows"
    "s' = s\<lparr>agents := collision_loop cl gd (min_collision_distance s)
                         (agent_collision_penalty (config s)) as1,
             pos_rew := pr,
             final_rew := masked_fill (all_last_dim (batch_dim s) rows)
                            (final_reward (config s)) (map (\<lambda>x. 0) (final_rew s)),
             all_goal_reached := Some (all_last_dim (batch_dim s) rows)\<rparr>"
  using assms by (auto simp: recompute_def Let_def split: sum.splits prod.splits)

lemma recompute_total:
  assumes "has_baseline s"
  shows "\<exists>s'. recompute cl gd s = Inr s'"
proof -
  from reward_loop_total [of "agents s" "config s" "map (\<lambda>x. 0) (pos_rew s)"] assms
  obtain as1 pr where
    r: "reward_loop (config s) (agents s) (map (\<lambda>x. 0) (pos_rew s)) = Inr (as1, pr)"
    by (auto simp: has_baseline_def)
  have "\<forall>a\<in>set as1. \<exists>g. on_goal a = Some g"
  proof
    fix a assume "a \<in> set as1"
    then obtain i where "i < length as1" "a = as1 ! i" by (auto simp: in_set_conv_nth)
    with reward_loop_Inr(1,2) [OF r] show "\<exists>g. on_goal a = Some g" by fastforce
  qed
  from stack_on_goal_Some [OF this] obtain rows where "stack_on_goal as1 = Inr rows" by blast
  with r show ?thesis by (simp add: recompute_def Let_def)
qed

lemma recompute_frame:
  assumes "recompute cl gd s = Inr s'"
  shows "config s' = config s" "batch_dim s' = batch_dim s"
    "min_collision_distance s' = min_collision_distance s"
    "length (agents s') = length (agents s)"
proof -
  from assms obtain as1 pr rows where
    u: "reward_loop (config s) (agents s) (map (\<lambda>x. 0) (pos_rew s)) = Inr (as1, pr)"
      "s' = s\<lparr>agents := collision_loop cl gd (min_collision_distance s)
                         (agent_collision_penalty (config s)) as1,
             pos_rew := pr,
             final_rew := masked_fill (all_last_dim (batch_dim s) rows)
                            (final_reward (config s)) (map (\<lambda>x. 0) (final_rew s)),
             all_goal_reached := Some (all_last_dim (batch_dim s) rows)\<rparr>"
    by (rule recompute_unfold)
  from u(2) show "config s' = config s" "batch_dim s' = batch_dim s"
    "min_collision_distance s' = min_collision_distance s" by simp_all
  from u(2) reward_loop_Inr(1) [OF u(1)] show "length (agents s') = length (agents s)"
    by (simp add: collision_loop_keeps)
qed

lemma recompute_agent:
  assumes r: "recompute cl gd s = Inr s'" and i: "i < length (agents s)"
  shows "\<exists>ps. pos_shaping (agents s ! i) = Some ps
    \<and> agents s' ! i = (agents s ! i)\<lparr>distance_to_goal := Some (goal_distance (agents s ! i)),
         on_goal := Some (map (\<lambda>x. x < goal_radius (agents s ! i)) (goal_distance (agents s ! i))),
         agent_pos_rew := map2 (-) ps (shaping (config s) (agents s ! i)),
         pos_shaping := Some (shaping (config s) (agents s ! i)),
         agent_collision_rew := agent_collision_rew (agents s' ! i)\<rparr>"
proof -
  let ?a = "agents s ! i"
  from r obtain as1 pr rows where
    u: "reward_loop (config s) (agents s) (map (\<lambda>x. 0) (pos_rew s)) = Inr (as1, pr)"
      "s' = s\<lparr>agents := collision_loop cl gd (min_collision_distance s)
                         (agent_collision_penalty (config s)) as1,
             pos_rew := pr,
             final_rew := masked_fill (all_last_dim (batch_dim s) rows)
                            (final_reward (config s)) (map (\<lambda>x. 0) (final_rew s)),
             all_goal_reached := Some (all_last_dim (batch_dim s) rows)\<rparr>"
    by (rule recompute_unfold)
  from reward_loop_Inr(1,2) [OF u(1)] i obtain ps where
    len: "length as1 = length (agents s)" and ps: "pos_shaping ?a = Some ps"
    and a1: "as1 ! i = ?a\<lparr>distance_to_goal := Some (goal_distance ?a),
         on_goal := Some (map (\<lambda>x. x < goal_radius ?a) (goal_distance ?a)),
         agent_pos_rew := map2 (-) ps (shaping (config s) ?a),
         pos_shaping := Some (shaping (config s) ?a),
         agent_collision_rew := map (\<lambda>x. 0) (agent_collision_rew ?a)\<rparr>"
    by blast
  have ag: "agents s' = collision_loop cl gd (min_collision_distance s)
                         (agent_collision_penalty (config s)) as1"
    using u(2) by simp
  have "map without_collision_rew (agents s') ! i = map without_collision_rew as1 ! i"
    by (simp only: ag collision_loop_keeps(2))
  then have "without_collision_rew (agents s' ! i) = without_collision_rew (as1 ! i)"
    using i len by (simp add: ag collision_loop_keeps(1))
  from without_collision_rew_eq [OF this] a1 ps show ?thesis by simp
qed


lemma stack_on_goal_Inr:
  "stack_on_goal as = Inr rows \<Longrightarrow> map Some rows = map on_goal as"
  by (induction as arbitrary: rows) (auto split: option.splits sum.splits)

lemma nth_masked_fill:
  "e < length msk \<Longrightarrow> e < length xs \<Longrightarrow>
     masked_fill msk v xs ! e = (if msk ! e then v else xs ! e)"
  by (simp add: masked_fill_def)

lemma length_all_last_dim: "length (all_last_dim bd rows) = bd"
  by (simp add: all_last_dim_def)

lemma wf_scenario_nth:
  assumes "wf_scenario s" "i < length (agents s)"
  shows "wf_agent (batch_dim s) (agents s ! i)"
  using assms by (simp add: wf_scenario_def list_all_length)

lemma recompute_final_rew:
  assumes r: "recompute cl gd s = Inr s'" and wf: "wf_scenario s" and e: "e < batch_dim s"
  shows "final_rew s' ! e = (if within_goal_radius e s then final_reward (config s) else 0)"
    and "length (final_rew s') = batch_dim s"
proof -
  from r obtain as1 pr rows where
    u: "reward_loop (config s) (agents s) (map (\<lambda>x. 0) (pos_rew s)) = Inr (as1, pr)"
      "stack_on_goal as1 = Inr rows"
      "s' = s\<lparr>agents := collision_loop cl gd (min_collision_distance s)
                         (agent_collision_penalty (config s)) as1,
             pos_rew := pr,
             final_rew := masked_fill (all_last_dim (batch_dim s) rows)
                            (final_reward (config s)) (map (\<lambda>x. 0) (final_rew s)),
             all_goal_reached := Some (all_last_dim (batch_dim s) rows)\<rparr>"
    by (rule recompute_unfold)
  have fr: "final_rew s' = masked_fill (all_last_dim (batch_dim s) rows)
                            (final_reward (config s)) (map (\<lambda>x. 0) (final_rew s))"
    using u(3) by simp
  have lf: "length (final_rew s) = batch_dim s" using wf by (simp add: wf_scenario_def)
  show "length (final_rew s') = batch_dim s"
    by (simp add: fr masked_fill_def length_all_last_dim lf)
  have len: "length as1 = length (agents s)" by (rule reward_loop_Inr(1) [OF u(1)])
  have rows: "map Some rows = map on_goal as1" by (rule stack_on_goal_Inr [OF u(2)])
  then have lr: "length rows = length (agents s)"
    using len by (metis length_map)
  have row: "rows ! i ! e \<longleftrightarrow>
      vector_norm (sub2 (pos (agents s ! i) ! e) (goal_pos (agents s ! i) ! e))
        < goal_radius (agents s ! i)"
    if i: "i < length (agents s)" for i
  proof -
    let ?a = "agents s ! i"
    from reward_loop_Inr(2) [OF u(1)] i
    have "on_goal (as1 ! i) = Some (map (\<lambda>x. x < goal_radius ?a) (goal_distance ?a))"
      by fastforce
    moreover have "Some (rows ! i) = on_goal (as1 ! i)"
      using rows i lr len by (metis nth_map)
    ultimately have ri: "rows ! i = map (\<lambda>x. x < goal_radius ?a) (goal_distance ?a)" by simp
    from wf_scenario_nth [OF wf i] e have "e < length (pos ?a)" "e < length (goal_pos ?a)"
      by (simp_all add: wf_agent_def)
    then show ?thesis by (simp add: ri length_goal_distance nth_goal_distance)
  qed
  have "all_last_dim (batch_dim s) rows ! e \<longleftrightarrow> within_goal_radius e s"
    using row lr by (simp add: nth_all_last_dim [OF e] within_goal_radius_def list_all_length)
  then show "final_rew s' ! e = (if within_goal_radius e s then final_reward (config s) else 0)"
    using e lf by (simp add: fr nth_masked_fill length_all_last_dim)
qed

lemma recompute_collision_rew:
  assumes r: "recompute cl gd s = Inr s'" and wf: "wf_scenario s"
    and dc: "distance_contract (batch_dim s) gd"
    and k: "k < length (agents s)" and e: "e < batch_dim s"
  shows "agent_collision_rew (agents s' ! k) ! e
           = agent_collision_penalty (config s)
             * real (card {l. l < length (agents s)
                            \<and> pair_triggers cl gd (min_collision_distance s) e k l})"
    and "length (agent_collision_rew (agents s' ! k)) = batch_dim s"
proof -
  from r obtain as1 pr rows where
    u: "reward_loop (config s) (agents s) (map (\<lambda>x. 0) (pos_rew s)) = Inr (as1, pr)"
      "s' = s\<lparr>agents := collision_loop cl gd (min_collision_distance s)
                         (agent_collision_penalty (config s)) as1,
             pos_rew := pr,
             final_rew := masked_fill (all_last_dim (batch_dim s) rows)
                            (final_reward (config s)) (map (\<lambda>x. 0) (final_rew s)),
             all_goal_reached := Some (all_last_dim (batch_dim s) rows)\<rparr>"
    by (rule recompute_unfold)
  have len: "length as1 = length (agents s)" by (rule reward_loop_Inr(1) [OF u(1)])
  have zero: "agent_collision_rew (as1 ! i) = replicate (batch_dim s) 0"
    if i: "i < length (agents s)" for i
  proof -
    from reward_loop_Inr(2) [OF u(1)] i
    have "agent_collision_rew (as1 ! i) = map (\<lambda>x. 0) (agent_collision_rew (agents s ! i))"
      by fastforce
    moreover have "length (agent_collision_rew (agents s ! i)) = batch_dim s"
      using wf_scenario_nth [OF wf i] by (simp add: wf_agent_def)
    ultimately show ?thesis by (simp add: map_replicate_const)
  qed
  have lens: "\<forall>a\<in>set as1. length (agent_collision_rew a) = batch_dim s"
    using zero len by (auto simp: in_set_conv_nth)
  have k1: "k < length as1" using k len by simp
  have ag: "agents s' = collision_loop cl gd (min_collision_distance s)
                         (agent_collision_penalty (config s)) as1"
    using u(2) by simp
  show "agent_collision_rew (agents s' ! k) ! e
           = agent_collision_penalty (config s)
             * real (card {l. l < length (agents s)
                            \<and> pair_triggers cl gd (min_collision_distance s) e k l})"
    using collision_loop_nth [OF dc lens k1 e] zero [OF k] e by (simp add: ag len)
  have "\<forall>a\<in>set (agents s'). length (agent_collision_rew a) = batch_dim s"
    unfolding ag by (rule collision_loop_lengths [OF dc lens])
  then show "length (agent_collision_rew (agents s' ! k)) = batch_dim s"
    using k recompute_frame(4) [OF r] by simp
qed

section \<open>Collision penalties are symmetric\<close>

lemma reward_first:
  assumes "agents s \<noteq> []" and "recompute cl gd s = Inr s'"
  shows "reward cl gd s 0
           = Inr (map2 (+) (map2 (+) (if shared_rew (config s') then pos_rew s'
                                         else agent_pos_rew (agents s' ! 0)) (final_rew s'))
                    (agent_collision_rew (agents s' ! 0)), s')"
  using assms by (simp add: reward_def Let_def)

lemma pair_triggers_sym:
  "pair_triggers cl gd thr e k l \<longleftrightarrow> pair_triggers cl gd thr e l k"
  by (auto simp: pair_triggers_def max.commute min.commute)

lemma card_partners_split:
  assumes "l < (n::nat)"
  shows "real (card {m. m < n \<and> P m})
           = (if P l then 1 else 0) + real (card {m. m < n \<and> m \<noteq> l \<and> P m})"
proof -
  have fin: "finite {m. m < n \<and> m \<noteq> l \<and> P m}"
    by (rule finite_subset [where B = "{..<n}"]) auto
  show ?thesis
  proof (cases "P l")
    case True
    then have "{m. m < n \<and> P m} = insert l {m. m < n \<and> m \<noteq> l \<and> P m}"
      using assms by auto
    then have "card {m. m < n \<and> P m} = Suc (card {m. m < n \<and> m \<noteq> l \<and> P m})"
      using fin by simp
    with True show ?thesis by simp
  next
    case False
    then have "{m. m < n \<and> P m} = {m. m < n \<and> m \<noteq> l \<and> P m}" by auto
    with False show ?thesis by simp
  qed
qed

text \<open>
  C6. For agents \<open>i < j\<close>, when the simulator reports the pair as collidable and their
  distance in environment \<open>e\<close> is at most the collision threshold, the step's collision
  accumulators of agent \<open>i\<close> and of agent \<open>j\<close> in that environment both contain the
  configured penalty once for this pair, next to the penalties of their other pairs;
  when the pair does not trigger, neither contains anything for it.
\<close>

theorem collision_penalty_symmetric:
  assumes wf: "wf_scenario s" and bl: "has_baseline s"
    and dc: "distance_contract (batch_dim s) get_distance"
    and ij: "i < j" and j: "j < length (agents s)" and e: "e < batch_dim s"
  shows "\<exists>r s'. reward collides get_distance s 0 = Inr (r, s')
    \<and> agent_collision_rew (agents s' ! i) ! e
        = (if collides j i \<and> get_distance j i ! e \<le> min_collision_distance s
           then agent_collision_penalty (config s) else 0)
          + agent_collision_penalty (config s)
            * real (card {m. m < length (agents s) \<and> m \<noteq> j
                          \<and> pair_triggers collides get_distance (min_collision_distance s) e i m})
    \<and> agent_collision_rew (agents s' ! j) ! e
        = (if collides j i \<and> get_distance j i ! e \<le> min_collision_distance s
           then agent_collision_penalty (config s) else 0)
          + agent_collision_penalty (config s)
            * real (card {m. m < length (agents s) \<and> m \<noteq> i
                          \<and> pair_triggers collides get_distance (min_collision_distance s) e j m})"
proof -
  let ?pen = "agent_collision_penalty (config s)"
  let ?thr = "min_collision_distance s"
  let ?n = "length (agents s)"
  let ?P = "pair_triggers collides get_distance ?thr e"
  from recompute_total [OF bl] obtain s' where r: "recompute collides get_distance s = Inr s'"
    by blast
  have ne: "agents s \<noteq> []" using j by auto
  have i: "i < ?n" using ij j by simp
  have hit_i: "?P i j \<longleftrightarrow> collides j i \<and> get_distance j i ! e \<le> ?thr"
    using ij by (auto simp: pair_triggers_def max_def min_def)
  have hit_j: "?P j i \<longleftrightarrow> collides j i \<and> get_distance j i ! e \<le> ?thr"
    using ij by (auto simp: pair_triggers_def max_def min_def)
  have "agent_collision_rew (agents s' ! i) ! e = ?pen * real (card {m. m < ?n \<and> ?P i m})"
    by (rule recompute_collision_rew(1) [OF r wf dc i e])
  also have "real (card {m. m < ?n \<and> ?P i m})
               = (if ?P i j then 1 else 0) + real (card {m. m < ?n \<and> m \<noteq> j \<and> ?P i m})"
    by (rule card_partners_split [OF j])
  finally have A: "agent_collision_rew (agents s' ! i) ! e
        = (if collides j i \<and> get_distance j i ! e \<le> ?thr then ?pen else 0)
          + ?pen * real (card {m. m < ?n \<and> m \<noteq> j \<and> ?P i m})"
    by (simp add: hit_i algebra_simps)
  have "agent_collision_rew (agents s' ! j) ! e = ?pen * real (card {m. m < ?n \<and> ?P j m})"
    by (rule recompute_collision_rew(1) [OF r wf dc j e])
  also have "real (card {m. m < ?n \<and> ?P j m})
               = (if ?P j i then 1 else 0) + real (card {m. m < ?n \<and> m \<noteq> i \<and> ?P j m})"
    by (rule card_partners_split [OF i])
  finally have B: "agent_collision_rew (agents s' ! j) ! e
        = (if collides j i \<and> get_distance j i ! e \<le> ?thr then ?pen else 0)
          + ?pen * real (card {m. m < ?n \<and> m \<noteq> i \<and> ?P j m})"
    by (simp add: hit_j algebra_simps)
  from reward_first [OF ne r] A B show ?thesis by blast
qed

lemma pair_world_facts:
  "wf_scenario pair_world" "has_baseline pair_world" "batch_dim pair_world = 2"
  "length (agents pair_world) = 2" "config pair_world = pair_config"
  "min_collision_distance pair_world = 1 / 200"
  by (simp_all add: wf_scenario_def wf_agent_def has_baseline_def pair_world_def
        pair_scenario_def pair_agent_def)

theorem collision_penalty_symmetric_witness:
  "wf_scenario pair_world \<and> has_baseline pair_world
   \<and> distance_contract (batch_dim pair_world) (\<lambda>i j. [0, 1])
   \<and> (0::nat) < 1 \<and> 1 < length (agents pair_world) \<and> 0 < batch_dim pair_world
   \<and> (\<exists>r s'. reward (\<lambda>i j. True) (\<lambda>i j. [0, 1]) pair_world 0 = Inr (r, s')
          \<and> agent_collision_rew (agents s' ! 0) ! 0 = - 1
          \<and> agent_collision_rew (agents s' ! 1) ! 0 = - 1)"
proof -
  have dc: "distance_contract (batch_dim pair_world) (\<lambda>i j. [0, 1])"
    by (simp add: distance_contract_def pair_world_facts)
  have h: "(0::nat) < 1" "1 < length (agents pair_world)" "0 < batch_dim pair_world"
    by (simp_all add: pair_world_facts)
  let ?cl = "\<lambda>i j::nat. True"
  let ?gd = "\<lambda>i j::nat. [0, 1::real]"
  let ?thr = "min_collision_distance pair_world"
  let ?n = "length (agents pair_world)"
  have none0: "{m. m < ?n \<and> m \<noteq> 1 \<and> pair_triggers ?cl ?gd ?thr 0 0 m} = {}"
    by (auto simp: pair_triggers_def pair_world_facts)
  have none1: "{m. m < ?n \<and> m \<noteq> 0 \<and> pair_triggers ?cl ?gd ?thr 0 1 m} = {}"
    by (auto simp: pair_triggers_def pair_world_facts)
  have pen: "agent_collision_penalty pair_config = - 1"
    by (simp add: pair_config_def BaseNavigationConfig_defaults_def)
  from collision_penalty_symmetric [OF pair_world_facts(1,2) dc h, of ?cl]
  have "\<exists>r s'. reward ?cl ?gd pair_world 0 = Inr (r, s')
          \<and> agent_collision_rew (agents s' ! 0) ! 0 = - 1
          \<and> agent_collision_rew (agents s' ! 1) ! 0 = - 1"
    unfolding none0 none1 by (simp add: pair_world_facts pen)
  with pair_world_facts(1,2) dc h show ?thesis by blast
qed

section \<open>Calls within one step\<close>

lemma reward_other:
  "0 < k \<Longrightarrow> k < length (agents s) \<Longrightarrow> reward cl gd s k = Inr (reward_value s k, s)"
  by (simp add: reward_def reward_value_def Let_def)

lemma reward_first_value:
  assumes "agents s \<noteq> []" and "recompute cl gd s = Inr s'"
  shows "reward cl gd s 0 = Inr (reward_value s' 0, s')"
  using assms by (simp add: reward_def reward_value_def Let_def)

lemma rewards_from_others:
  "\<forall>k\<in>set ks. 0 < k \<and> k < length (agents s) \<Longrightarrow>
     rewards_from cl gd s ks = Inr (map (reward_value s) ks, s)"
  by (induction ks) (simp_all add: reward_other)

lemma rewards_from_first:
  assumes "agents s \<noteq> []" and "recompute cl gd s = Inr s'"
    and "\<forall>k\<in>set ks. 0 < k \<and> k < length (agents s)"
  shows "rewards_from cl gd s (0 # ks) = Inr (map (reward_value s') (0 # ks), s')"
proof -
  have "\<forall>k\<in>set ks. 0 < k \<and> k < length (agents s')"
    using assms(3) recompute_frame(4) [OF assms(2)] by simp
  from rewards_from_others [OF this, of cl gd] reward_first_value [OF assms(1,2)]
  show ?thesis by simp
qed

lemma rewards_from_world_order:
  assumes "agents s \<noteq> []" and "recompute cl gd s = Inr s'"
  shows "rewards_from cl gd s [0..<length (agents s)]
           = Inr (map (reward_value s') [0..<length (agents s)], s')"
proof -
  have u: "[0..<length (agents s)] = 0 # [1..<length (agents s)]"
    using assms(1) by (simp add: upt_conv_Cons)
  have "\<forall>k\<in>set [1..<length (agents s)]. 0 < k \<and> k < length (agents s)" by simp
  from rewards_from_first [OF assms this] show ?thesis by (simp only: u)
qed

lemma length_fold_add:
  "\<forall>a\<in>set as. length (f a) = n \<Longrightarrow> length acc = n \<Longrightarrow>
     length (fold (\<lambda>a acc. map2 (+) acc (f a)) as acc) = n"
  by (induction as arbitrary: acc) simp_all

lemma length_shaping:
  "wf_agent bd a \<Longrightarrow> length (shaping c a) = bd"
  by (simp add: shaping_def length_goal_distance wf_agent_def)

lemma recompute_wf:
  assumes r: "recompute cl gd s = Inr s'" and wf: "wf_scenario s"
    and dc: "distance_contract (batch_dim s) gd"
  shows "wf_scenario s'" and "has_baseline s'"
proof -
  from r obtain as1 pr rows where
    u: "reward_loop (config s) (agents s) (map (\<lambda>x. 0) (pos_rew s)) = Inr (as1, pr)"
      "s' = s\<lparr>agents := collision_loop cl gd (min_collision_distance s)
                         (agent_collision_penalty (config s)) as1,
             pos_rew := pr,
             final_rew := masked_fill (all_last_dim (batch_dim s) rows)
                            (final_reward (config s)) (map (\<lambda>x. 0) (final_rew s)),
             all_goal_reached := Some (all_last_dim (batch_dim s) rows)\<rparr>"
    by (rule recompute_unfold)
  have n: "length (agents s') = length (agents s)" by (rule recompute_frame(4) [OF r])
  have bd: "batch_dim s' = batch_dim s" by (rule recompute_frame(2) [OF r])
  have len1: "length as1 = length (agents s)" by (rule reward_loop_Inr(1) [OF u(1)])
  have ag: "wf_agent (batch_dim s) (agents s' ! i) \<and> pos_shaping (agents s' ! i) \<noteq> None"
    if i: "i < length (agents s)" for i
  proof -
    let ?a = "agents s ! i"
    have wa: "wf_agent (batch_dim s) ?a" by (rule wf_scenario_nth [OF wf i])
    from recompute_agent [OF r i] obtain ps where ps: "pos_shaping ?a = Some ps"
      and a': "agents s' ! i = ?a\<lparr>distance_to_goal := Some (goal_distance ?a),
         on_goal := Some (map (\<lambda>x. x < goal_radius ?a) (goal_distance ?a)),
         agent_pos_rew := map2 (-) ps (shaping (config s) ?a),
         pos_shaping := Some (shaping (config s) ?a),
         agent_collision_rew := agent_collision_rew (agents s' ! i)\<rparr>"
      by blast
    have lps: "length ps = batch_dim s" using wa ps by (simp add: wf_agent_def)
    have lc: "length (agent_collision_rew (agents s' ! i)) = batch_dim s"
    proof -
      have "\<forall>a\<in>set as1. length (agent_collision_rew a) = batch_dim s"
      proof
        fix a assume "a \<in> set as1"
        then obtain m where m: "m < length (agents s)" "a = as1 ! m"
          using len1 by (auto simp: in_set_conv_nth)
        from reward_loop_Inr(2) [OF u(1)] m(1)
        have "agent_collision_rew (as1 ! m) = map (\<lambda>x. 0) (agent_collision_rew (agents s ! m))"
          by fastforce
        with wf_scenario_nth [OF wf m(1)] m(2) show "length (agent_collision_rew a) = batch_dim s"
          by (simp add: wf_agent_def)
      qed
      from collision_loop_lengths [OF dc this, of cl "min_collision_distance s"
             "agent_collision_penalty (config s)"] u(2)
      have all: "\<forall>a\<in>set (agents s'). length (agent_collision_rew a) = batch_dim s" by simp
      have "agents s' ! i \<in> set (agents s')" using i n by simp
      with all show ?thesis by blast
    qed
    have "wf_agent (batch_dim s) (agents s' ! i)"
      using wa lps lc length_shaping [OF wa, of "config s"]
      by (subst a') (simp add: wf_agent_def)
    moreover have "pos_shaping (agents s' ! i) \<noteq> None" by (subst a') simp
    ultimately show ?thesis ..
  qed
  show "has_baseline s'" using ag n by (simp add: has_baseline_def list_all_length)
  have lpr: "length (pos_rew s') = batch_dim s"
  proof -
    have "\<forall>a\<in>set as1. length (agent_pos_rew a) = batch_dim s"
    proof
      fix a assume "a \<in> set as1"
      then obtain m where m: "m < length (agents s)" "a = as1 ! m"
        using len1 by (auto simp: in_set_conv_nth)
      from reward_loop_Inr(2) [OF u(1)] m(1) obtain ps where
        "pos_shaping (agents s ! m) = Some ps"
        "agent_pos_rew (as1 ! m) = map2 (-) ps (shaping (config s) (agents s ! m))"
        by fastforce
      with wf_scenario_nth [OF wf m(1)] length_shaping [OF wf_scenario_nth [OF wf m(1)], of "config s"]
        m(2)
      show "length (agent_pos_rew a) = batch_dim s" by (simp add: wf_agent_def)
    qed
    moreover have "length (map (\<lambda>x. 0::real) (pos_rew s)) = batch_dim s"
      using wf by (simp add: wf_scenario_def)
    ultimately have "length (fold (\<lambda>a acc. map2 (+) acc (agent_pos_rew a)) as1
                        (map (\<lambda>x. 0) (pos_rew s))) = batch_dim s"
      by (rule length_fold_add)
    then show ?thesis using reward_loop_Inr(3) [OF u(1)] u(2) by simp
  qed
  have lfr: "length (final_rew s') = batch_dim s"
    using u(2) wf by (simp add: masked_fill_def length_all_last_dim wf_scenario_def)
  show "wf_scenario s'"
    using ag n bd lpr lfr by (simp add: wf_scenario_def list_all_length)
qed

lemma nth_reward_value:
  assumes "wf_scenario s" "k < length (agents s)" "e < batch_dim s"
  shows "reward_value s k ! e
           = (if shared_rew (config s) then pos_rew s ! e else agent_pos_rew (agents s ! k) ! e)
             + final_rew s ! e + agent_collision_rew (agents s ! k) ! e"
  using assms wf_scenario_nth [OF assms(1,2)]
  by (simp add: reward_value_def wf_scenario_def wf_agent_def)


lemma upt_two: "[0..<2] = [0, 1]" "[0..<Suc (Suc 0)] = [0, Suc 0]"
  by (simp_all add: upt_rec numeral_eq_Suc)

lemma near_world_baseline: "has_baseline near_world"
  by (simp add: has_baseline_def near_world_def pair_scenario_def pair_agent_def)

text \<open>
  C5 (as the code has it). Within one step, the call for the first agent recomputes the
  shared state; every later call for another agent returns what the scenario then holds
  and leaves the scenario unchanged. So, after the first agent's call, asking for the
  other agents' rewards any number of times and in any order gives each agent the same
  value every time.
\<close>

theorem reward_read_only_after_first:
  assumes "has_baseline s" and "agents s \<noteq> []"
    and "\<forall>k\<in>set ks. 0 < k \<and> k < length (agents s)"
  shows "\<exists>s'. recompute collides get_distance s = Inr s'
    \<and> rewards_from collides get_distance s (0 # ks) = Inr (map (reward_value s') (0 # ks), s')
    \<and> rewards_from collides get_distance s' ks = Inr (map (reward_value s') ks, s')"
proof -
  from recompute_total [OF assms(1)] obtain s'
    where r: "recompute collides get_distance s = Inr s'" by blast
  have "\<forall>k\<in>set ks. 0 < k \<and> k < length (agents s')"
    using assms(3) recompute_frame(4) [OF r] by simp
  from rewards_from_others [OF this] rewards_from_first [OF assms(2) r assms(3)] r
  show ?thesis by blast
qed

theorem reward_read_only_after_first_witness:
  "has_baseline near_world \<and> agents near_world \<noteq> []
   \<and> (0::nat) < 1 \<and> 1 < length (agents near_world)
   \<and> (\<exists>s'. rewards_from never_collides far_apart near_world [0, 1, 1]
               = Inr (map (reward_value s') [0, 1, 1], s')
          \<and> rewards_from never_collides far_apart s' [1, 1]
               = Inr (map (reward_value s') [1, 1], s'))"
proof -
  have n: "(0::nat) < 1" "1 < length (agents near_world)"
    by (simp_all add: near_world_def pair_scenario_def)
  then have ks: "\<forall>k\<in>set [1, 1]. 0 < k \<and> k < length (agents near_world)" by simp
  from reward_read_only_after_first
         [OF near_world_baseline near_world_facts(1) ks, of never_collides far_apart]
  have "\<exists>s'. rewards_from never_collides far_apart near_world [0, 1, 1]
               = Inr (map (reward_value s') [0, 1, 1], s')
          \<and> rewards_from never_collides far_apart s' [1, 1]
               = Inr (map (reward_value s') [1, 1], s')"
    by blast
  with near_world_baseline near_world_facts(1) n show ?thesis by blast
qed

theorem reward_not_idempotent_counterexample:
  "map_sum id fst (rewards_from never_collides far_apart near_world [0, 0])
     = Inr [ [19 / 20, 1 / 100], [0, 1 / 100] ]
   \<and> map_sum id fst (rewards_from never_collides far_apart near_world [0, 1])
     = Inr [ [19 / 20, 1 / 100], [19 / 20, 1 / 100] ]
   \<and> map_sum id fst (rewards_from never_collides far_apart near_world [1, 0])
     = Inr [ [0, 0], [19 / 20, 1 / 100] ]"
  by (simp add: reward_def recompute_def agent_reward_def goal_distance_def
        near_world_def pair_scenario_def pair_agent_def pair_config_def
        BaseNavigationConfig_defaults_def near_world_distance vector_norm_sub2_self
        all_last_dim_def masked_fill_def collision_loop_def collision_pair_def Let_def
        upt_two never_collides_def)

text \<open>
  C3 (as the code has it). Whenever the rewards of a step are computed, the terminal
  bonus of an environment is \<open>final_reward\<close> if every agent there is closer to its goal
  than the goal's radius, and 0 otherwise, and it is part of every agent's reward of
  that step. Nothing remembers earlier steps: the bonus is paid on the step in which the
  agents first are all on their goals and again on every later step on which they still
  are.
\<close>

theorem terminal_bonus_whenever_all_on_goal:
  assumes wf: "wf_scenario s" and bl: "has_baseline s"
    and dc: "distance_contract (batch_dim s) get_distance" and ne: "agents s \<noteq> []"
  shows "\<exists>rs s'. rewards_from collides get_distance s [0..<length (agents s)] = Inr (rs, s')
    \<and> length rs = length (agents s) \<and> wf_scenario s' \<and> has_baseline s'
    \<and> (\<forall>e<batch_dim s.
          final_rew s' ! e = (if within_goal_radius e s then final_reward (config s) else 0)
          \<and> (\<forall>k<length (agents s).
                rs ! k ! e
                  = (if shared_rew (config s) then pos_rew s' ! e
                     else agent_pos_rew (agents s' ! k) ! e)
                    + (if within_goal_radius e s then final_reward (config s) else 0)
                    + agent_collision_rew (agents s' ! k) ! e))"
proof -
  let ?n = "length (agents s)"
  from recompute_total [OF bl] obtain s'
    where r: "recompute collides get_distance s = Inr s'" by blast
  have wf': "wf_scenario s'" and bl': "has_baseline s'"
    by (rule recompute_wf [OF r wf dc])+
  have fr: "batch_dim s' = batch_dim s" "config s' = config s" "length (agents s') = ?n"
    by (rule recompute_frame [OF r])+
  have run: "rewards_from collides get_distance s [0..<?n]
               = Inr (map (reward_value s') [0..<?n], s')"
    by (rule rewards_from_world_order [OF ne r])
  have val: "final_rew s' ! e = (if within_goal_radius e s then final_reward (config s) else 0)
          \<and> (\<forall>k<?n. map (reward_value s') [0..<?n] ! k ! e
                  = (if shared_rew (config s) then pos_rew s' ! e
                     else agent_pos_rew (agents s' ! k) ! e)
                    + (if within_goal_radius e s then final_reward (config s) else 0)
                    + agent_collision_rew (agents s' ! k) ! e)"
    if e: "e < batch_dim s" for e
  proof -
    have f: "final_rew s' ! e = (if within_goal_radius e s then final_reward (config s) else 0)"
      by (rule recompute_final_rew(1) [OF r wf e])
    have "map (reward_value s') [0..<?n] ! k ! e
            = (if shared_rew (config s) then pos_rew s' ! e
               else agent_pos_rew (agents s' ! k) ! e)
              + (if within_goal_radius e s then final_reward (config s) else 0)
              + agent_collision_rew (agents s' ! k) ! e"
      if k: "k < ?n" for k
      using nth_reward_value [OF wf', of k e] k e f by (simp add: fr)
    with f show ?thesis by blast
  qed
  from run val wf' bl' show ?thesis by auto
qed


lemma near_world_on_goal:
  "within_goal_radius 1 near_world" "within_goal_radius (Suc 0) near_world"
  by (simp_all add: within_goal_radius_def near_world_def pair_scenario_def pair_agent_def
        vector_norm_sub2_self)

lemma far_apart_contract: "distance_contract 2 far_apart"
  by (simp add: distance_contract_def far_apart_def)

theorem terminal_bonus_whenever_all_on_goal_witness:
  "wf_scenario near_world \<and> has_baseline near_world
   \<and> distance_contract (batch_dim near_world) far_apart \<and> agents near_world \<noteq> []
   \<and> (\<exists>rs s'. rewards_from never_collides far_apart near_world
                  [0..<length (agents near_world)] = Inr (rs, s')
          \<and> final_rew s' ! 0 = 0 \<and> final_rew s' ! 1 = 1 / 100)"
proof -
  have dc: "distance_contract (batch_dim near_world) far_apart"
    by (simp add: near_world_facts(3) far_apart_contract)
  have fr: "final_reward (config near_world) = 1 / 100"
    by (simp add: near_world_def pair_scenario_def pair_config_def
          BaseNavigationConfig_defaults_def)
  from terminal_bonus_whenever_all_on_goal
         [OF near_world_facts(2) near_world_baseline dc near_world_facts(1), of never_collides]
  obtain rs s' where
    run: "rewards_from never_collides far_apart near_world
            [0..<length (agents near_world)] = Inr (rs, s')"
    and b: "\<forall>e<batch_dim near_world.
          final_rew s' ! e
            = (if within_goal_radius e near_world then final_reward (config near_world) else 0)"
    by blast
  from b [rule_format, of 0] b [rule_format, of 1]
  have "final_rew s' ! 0 = 0" "final_rew s' ! 1 = 1 / 100"
    by (simp_all add: near_world_facts(3) near_world_within(3) near_world_on_goal fr)
  with run near_world_facts(1,2) near_world_baseline dc show ?thesis by blast
qed

theorem terminal_bonus_repeats_counterexample:
  "map_sum id (map fst) (rollout never_collides far_apart near_world [to_goal, to_goal])
     = Inr [ [ [101 / 100, 1 / 100], [101 / 100, 1 / 100] ],
            [ [1 / 100, 1 / 100], [1 / 100, 1 / 100] ] ]"
  by (simp add: env_step_def world_step_def enumerate_eq_zip to_goal_def
        reward_def recompute_def agent_reward_def goal_distance_def
        near_world_def pair_scenario_def pair_agent_def pair_config_def
        BaseNavigationConfig_defaults_def vector_norm_sub2_self
        all_last_dim_def masked_fill_def collision_loop_def collision_pair_def Let_def
        upt_two never_collides_def)

section \<open>Progress rewards telescope\<close>

lemma world_step_frame:
  "config (world_step m s) = config s" "batch_dim (world_step m s) = batch_dim s"
  "length (agents (world_step m s)) = length (agents s)"
  "pos_rew (world_step m s) = pos_rew s" "final_rew (world_step m s) = final_rew s"
  by (simp_all add: world_step_def)

lemma nth_world_step:
  "k < length (agents s) \<Longrightarrow> agents (world_step m s) ! k = (agents s ! k)\<lparr>pos := m k\<rparr>"
  by (simp add: world_step_def nth_enumerate_eq)

lemma world_step_wf:
  assumes "wf_scenario s" and "\<forall>i<length (agents s). length (m i) = batch_dim s"
  shows "wf_scenario (world_step m s)"
proof -
  have "wf_agent (batch_dim s) (agents (world_step m s) ! i)" if "i < length (agents s)" for i
    using wf_scenario_nth [OF assms(1) that] assms(2) that
    by (simp add: nth_world_step wf_agent_def)
  then show ?thesis
    using assms(1) by (simp add: wf_scenario_def world_step_frame list_all_length)
qed

lemma world_step_baseline:
  "has_baseline s \<Longrightarrow> has_baseline (world_step m s)"
  by (simp add: has_baseline_def list_all_length world_step_frame nth_world_step)

lemma shaping_cong:
  "pos a = pos b \<Longrightarrow> goal_pos a = goal_pos b \<Longrightarrow> shaping c a = shaping c b"
  by (simp add: shaping_def goal_distance_def)

lemma env_step_effect:
  assumes wf: "wf_scenario s" and bl: "has_baseline s"
    and dc: "distance_contract (batch_dim s) gd" and ne: "agents s \<noteq> []"
    and m: "\<forall>i<length (agents s). length (m i) = batch_dim s"
  shows "\<exists>rs s'. env_step cl gd m s = Inr (rs, s')
    \<and> wf_scenario s' \<and> has_baseline s' \<and> batch_dim s' = batch_dim s \<and> config s' = config s
    \<and> length (agents s') = length (agents s)
    \<and> (\<forall>k<length (agents s). \<forall>e<batch_dim s. \<exists>b.
          shaping_at e (agents s ! k) = Some b
          \<and> agent_pos_rew (agents s' ! k) ! e = b - shaping (config s) (agents s' ! k) ! e
          \<and> shaping_at e (agents s' ! k) = Some (shaping (config s) (agents s' ! k) ! e))"
proof -
  let ?t = "world_step m s"
  let ?n = "length (agents s)"
  have wft: "wf_scenario ?t" by (rule world_step_wf [OF wf m])
  have blt: "has_baseline ?t" by (rule world_step_baseline [OF bl])
  have dct: "distance_contract (batch_dim ?t) gd" using dc by (simp add: world_step_frame)
  have net: "agents ?t \<noteq> []" using ne world_step_frame(3) [of m s] by auto
  from recompute_total [OF blt] obtain s' where r: "recompute cl gd ?t = Inr s'" by blast
  have run: "env_step cl gd m s = Inr (map (reward_value s') [0..<?n], s')"
    using rewards_from_world_order [OF net r] by (simp add: env_step_def world_step_frame)
  have wf': "wf_scenario s'" and bl': "has_baseline s'"
    by (rule recompute_wf [OF r wft dct])+
  have fr: "batch_dim s' = batch_dim s" "config s' = config s" "length (agents s') = ?n"
    using recompute_frame [OF r] by (simp_all add: world_step_frame)
  have each: "\<exists>b. shaping_at e (agents s ! k) = Some b
          \<and> agent_pos_rew (agents s' ! k) ! e = b - shaping (config s) (agents s' ! k) ! e
          \<and> shaping_at e (agents s' ! k) = Some (shaping (config s) (agents s' ! k) ! e)"
    if k: "k < ?n" and e: "e < batch_dim s" for k e
  proof -
    let ?a = "agents ?t ! k"
    have kt: "k < length (agents ?t)" using k by (simp add: world_step_frame)
    from recompute_agent [OF r kt] obtain ps where ps: "pos_shaping ?a = Some ps"
      and a': "agents s' ! k = ?a\<lparr>distance_to_goal := Some (goal_distance ?a),
         on_goal := Some (map (\<lambda>x. x < goal_radius ?a) (goal_distance ?a)),
         agent_pos_rew := map2 (-) ps (shaping (config ?t) ?a),
         pos_shaping := Some (shaping (config ?t) ?a),
         agent_collision_rew := agent_collision_rew (agents s' ! k)\<rparr>"
      by blast
    have wa: "wf_agent (batch_dim s) ?a"
      using wf_scenario_nth [OF wft kt] by (simp add: world_step_frame)
    have lps: "length ps = batch_dim s" using wa ps by (simp add: wf_agent_def)
    have lsh: "length (shaping (config s) ?a) = batch_dim s" by (rule length_shaping [OF wa])
    have same: "shaping (config s) (agents s' ! k) = shaping (config s) ?a"
      by (rule shaping_cong) (subst a', simp)+
    have old: "shaping_at e (agents s ! k) = Some (ps ! e)"
      using ps k by (simp add: nth_world_step shaping_at_def)
    have rew: "agent_pos_rew (agents s' ! k) ! e = ps ! e - shaping (config s) ?a ! e"
      using e lps lsh by (subst a') (simp add: world_step_frame)
    have new: "shaping_at e (agents s' ! k) = Some (shaping (config s) ?a ! e)"
      by (subst a') (simp add: shaping_at_def world_step_frame)
    from old rew new same show ?thesis by simp
  qed
  from run wf' bl' fr each show ?thesis by blast
qed


lemma trajectory_contract_Cons:
  "trajectory_contract s (m # ms) \<longleftrightarrow>
     (\<forall>i<length (agents s). length (m i) = batch_dim s) \<and> trajectory_contract s ms"
  by (auto simp: trajectory_contract_def list_all_iff)

lemma trajectory_contract_cong:
  "batch_dim s' = batch_dim s \<Longrightarrow> length (agents s') = length (agents s) \<Longrightarrow>
     trajectory_contract s' ms = trajectory_contract s ms"
  by (simp add: trajectory_contract_def)

lemma final_scenario_Cons: "final_scenario s ((rs, s') # out) = final_scenario s' out"
  by (simp add: final_scenario_def)

lemma rollout_telescope:
  assumes "wf_scenario s" and "has_baseline s" and "distance_contract (batch_dim s) gd"
    and "trajectory_contract s ms" and "k < length (agents s)" and "e < batch_dim s"
    and "shaping_at e (agents s ! k) = Some b"
  shows "\<exists>out b'. rollout cl gd s ms = Inr out \<and> length out = length ms
    \<and> wf_scenario (final_scenario s out)
    \<and> batch_dim (final_scenario s out) = batch_dim s
    \<and> length (agents (final_scenario s out)) = length (agents s)
    \<and> shaping_at e (agents (final_scenario s out) ! k) = Some b'
    \<and> sum_list (progress_rewards k e out) = b - b'
    \<and> (ms \<noteq> [] \<longrightarrow> b' = shaping (config s) (agents (final_scenario s out) ! k) ! e)"
  using assms
proof (induction ms arbitrary: s b)
  case Nil
  then show ?case by (simp add: final_scenario_def progress_rewards_def)
next
  case (Cons m ms)
  have ne: "agents s \<noteq> []" using Cons.prems(5) by auto
  from Cons.prems(4) have m: "\<forall>i<length (agents s). length (m i) = batch_dim s"
    and tr: "trajectory_contract s ms"
    by (simp_all add: trajectory_contract_Cons)
  from env_step_effect [OF Cons.prems(1,2,3) ne m, of cl] obtain rs s' where
    step: "env_step cl gd m s = Inr (rs, s')"
    and inv: "wf_scenario s'" "has_baseline s'" "batch_dim s' = batch_dim s"
      "config s' = config s" "length (agents s') = length (agents s)"
    and eff: "\<forall>k<length (agents s). \<forall>e<batch_dim s. \<exists>b.
          shaping_at e (agents s ! k) = Some b
          \<and> agent_pos_rew (agents s' ! k) ! e = b - shaping (config s) (agents s' ! k) ! e
          \<and> shaping_at e (agents s' ! k) = Some (shaping (config s) (agents s' ! k) ! e)"
    by blast
  let ?b1 = "shaping (config s) (agents s' ! k) ! e"
  from eff Cons.prems(5,6,7)
  have rew: "agent_pos_rew (agents s' ! k) ! e = b - ?b1"
    and b1: "shaping_at e (agents s' ! k) = Some ?b1"
    by fastforce+
  have dc': "distance_contract (batch_dim s') gd" using Cons.prems(3) inv(3) by simp
  have tr': "trajectory_contract s' ms"
    using tr trajectory_contract_cong [OF inv(3,5)] by simp
  have k': "k < length (agents s')" and e': "e < batch_dim s'"
    using Cons.prems(5,6) inv(3,5) by simp_all
  from Cons.IH [OF inv(1,2) dc' tr' k' e' b1] obtain out b' where
    run: "rollout cl gd s' ms = Inr out" and len: "length out = length ms"
    and wfin: "wf_scenario (final_scenario s' out)"
      "batch_dim (final_scenario s' out) = batch_dim s'"
      "length (agents (final_scenario s' out)) = length (agents s')"
    and fin: "shaping_at e (agents (final_scenario s' out) ! k) = Some b'"
    and tot: "sum_list (progress_rewards k e out) = ?b1 - b'"
    and syn: "ms \<noteq> [] \<longrightarrow> b' = shaping (config s') (agents (final_scenario s' out) ! k) ! e"
    by blast
  have run': "rollout cl gd s (m # ms) = Inr ((rs, s') # out)"
    using step run by simp
  have sum': "sum_list (progress_rewards k e ((rs, s') # out)) = b - b'"
    using rew tot by (simp add: progress_rewards_def)
  have syn': "b' = shaping (config s) (agents (final_scenario s ((rs, s') # out)) ! k) ! e"
  proof (cases "ms = []")
    case True
    with run have "out = []" by simp
    with fin b1 show ?thesis by (simp add: final_scenario_def)
  next
    case False
    with syn show ?thesis by (simp add: final_scenario_Cons inv(4))
  qed
  from run' len wfin fin sum' syn' inv(3,5) show ?case
    by (auto simp: final_scenario_Cons)
qed


lemma reset_agent_None_sync:
  "reset_agent c None gps i a = Inr a' \<Longrightarrow> pos_shaping a' = Some (shaping c a')"
  by (auto simp: reset_agent_def shaping_def goal_distance_def Let_def split: sum.splits)

lemma nth_shaping:
  "wf_agent bd a \<Longrightarrow> e < bd \<Longrightarrow>
     shaping c a ! e = goal_distance a ! e * pos_shaping_factor c"
  by (simp add: shaping_def length_goal_distance wf_agent_def)

lemma reset_sync:
  assumes r: "reset_world_at sp f ei s = Inr s0" and wf: "wf_scenario s0"
    and env: "ei = None \<or> ei = Some e"
    and k: "k < length (agents s0)" and e: "e < batch_dim s0"
  shows "shaping_at e (agents s0 ! k) = Some (shaping (config s0) (agents s0 ! k) ! e)"
proof -
  let ?as1 = "spawn_entities_randomly sp ei (agents s)"
  let ?gps = "reset_goal_poses sp f ei s"
  let ?a' = "agents s0 ! k"
  have c: "config s0 = config s"
    using reset_world_at_Inr(1) [OF r]
    by (metis scenario.select_convs(1) scenario.surjective scenario.update_convs(8))
  from reset_agents_nth [OF reset_world_at_Inr(2) [OF r] ] k
  have one: "reset_agent (config s) ei ?gps k (?as1 ! k) = Inr ?a'"
    by (simp add: length_spawn)
  have wa: "wf_agent (batch_dim s0) ?a'" by (rule wf_scenario_nth [OF wf k])
  from env show ?thesis
  proof
    assume "ei = None"
    with one have "pos_shaping ?a' = Some (shaping (config s) ?a')"
      by (simp add: reset_agent_None_sync)
    then show ?thesis by (simp add: shaping_at_def c)
  next
    assume ei: "ei = Some e"
    let ?a = "?as1 ! k"
    from reset_agent_Some [OF one [unfolded ei] ] obtain gp ps where
      a': "?a' = ?a\<lparr>goal_pos := set_pos gp (Some e) (goal_pos ?a),
                    pos_shaping := Some (ps[e := vector_norm
                       (sub2 (pos ?a ! e) (set_pos gp (Some e) (goal_pos ?a) ! e))
                         * pos_shaping_factor (config s)])\<rparr>"
      unfolding ei by blast
    have "length (pos ?a') = batch_dim s0" "length (goal_pos ?a') = batch_dim s0"
      "\<And>qs. pos_shaping ?a' = Some qs \<Longrightarrow> length qs = batch_dim s0"
      using wa by (simp_all add: wf_agent_def)
    then have len: "e < length (pos ?a)" "e < length (set_pos gp (Some e) (goal_pos ?a))"
      "e < length ps"
      using e by (simp_all add: a')
    have "shaping (config s) ?a' ! e = goal_distance ?a' ! e * pos_shaping_factor (config s)"
      by (rule nth_shaping [OF wa e])
    also have "goal_distance ?a' ! e
                 = vector_norm (sub2 (pos ?a ! e) (set_pos gp (Some e) (goal_pos ?a) ! e))"
      using len by (subst a') (simp add: goal_distance_def)
    finally have sh: "shaping (config s) ?a' ! e
        = vector_norm (sub2 (pos ?a ! e) (set_pos gp (Some e) (goal_pos ?a) ! e))
            * pos_shaping_factor (config s)" .
    have "shaping_at e ?a' = Some (vector_norm
             (sub2 (pos ?a ! e) (set_pos gp (Some e) (goal_pos ?a) ! e))
               * pos_shaping_factor (config s))"
      using len by (subst a') (simp add: shaping_at_def)
    with sh show ?thesis by (simp add: c)
  qed
qed

lemma reset_baseline:
  assumes r: "reset_world_at sp f ei s = Inr s0"
  shows "has_baseline s0"
proof -
  let ?as1 = "spawn_entities_randomly sp ei (agents s)"
  let ?gps = "reset_goal_poses sp f ei s"
  from reset_agents_nth [OF reset_world_at_Inr(2) [OF r] ]
  have len: "length (agents s0) = length ?as1"
    and each: "\<And>j. j < length ?as1 \<Longrightarrow>
        reset_agent (config s) ei ?gps j (?as1 ! j) = Inr (agents s0 ! j)"
    by simp_all
  have "pos_shaping (agents s0 ! j) \<noteq> None" if j: "j < length ?as1" for j
  proof (cases ei)
    case None
    with each [OF j] show ?thesis by (simp add: reset_agent_None_sync)
  next
    case (Some e)
    with reset_agent_Some [of "config s" e ?gps j "?as1 ! j" "agents s0 ! j"] each [OF j]
    show ?thesis by auto
  qed
  then show ?thesis using len by (simp add: has_baseline_def list_all_length)
qed


lemma reset_world_at_frame:
  assumes r: "reset_world_at sp f ei s = Inr s0"
  shows "batch_dim s0 = batch_dim s" "config s0 = config s"
    "length (agents s0) = length (agents s)"
    "pos_rew s0 = pos_rew s" "final_rew s0 = final_rew s"
proof -
  have eq: "s0 = s\<lparr>agents := agents s0\<rparr>" by (rule reset_world_at_Inr(1) [OF r])
  show "batch_dim s0 = batch_dim s" by (subst eq) simp
  show "config s0 = config s" by (subst eq) simp
  show "pos_rew s0 = pos_rew s" by (subst eq) simp
  show "final_rew s0 = final_rew s" by (subst eq) simp
  from reset_agents_nth [OF reset_world_at_Inr(2) [OF r] ]
  show "length (agents s0) = length (agents s)" by (simp add: length_spawn)
qed

lemma reset_world_at_Some_wf:
  assumes r: "reset_world_at sp f (Some e) s = Inr s0" and wf: "wf_scenario s"
  shows "wf_scenario s0"
proof -
  let ?as1 = "spawn_entities_randomly sp (Some e) (agents s)"
  let ?gps = "reset_goal_poses sp f (Some e) s"
  have was: "list_all (wf_agent (batch_dim s)) (agents s)"
    using wf by (simp add: wf_scenario_def)
  have "wf_agent (batch_dim s) (agents s0 ! j)" if j: "j < length (agents s)" for j
  proof -
    let ?a = "?as1 ! j"
    have wa: "wf_agent (batch_dim s) ?a"
      using wf_agent_spawn [OF was, of sp e] j by (simp add: list_all_length length_spawn)
    from reset_agents_nth [OF reset_world_at_Inr(2) [OF r] ] j
    have "reset_agent (config s) (Some e) ?gps j ?a = Inr (agents s0 ! j)"
      by (simp add: length_spawn)
    from reset_agent_Some [OF this] obtain gp ps where ps: "pos_shaping ?a = Some ps"
      and a': "agents s0 ! j = ?a\<lparr>goal_pos := set_pos gp (Some e) (goal_pos ?a),
                    pos_shaping := Some (ps[e := vector_norm
                       (sub2 (pos ?a ! e) (set_pos gp (Some e) (goal_pos ?a) ! e))
                         * pos_shaping_factor (config s)])\<rparr>"
      by blast
    from wa ps show ?thesis
      by (subst a') (simp add: wf_agent_def length_set_pos_Some)
  qed
  then show ?thesis
    using wf reset_world_at_frame [OF r]
    by (simp add: wf_scenario_def list_all_length)
qed

text \<open>
  C2. Over any trajectory of steps after a reset (of the whole batch, or of the
  environment looked at), the sum of an agent's per-step progress rewards
  \<^verbatim>\<open>agent.pos_rew\<close> in an environment is \<open>pos_shaping_factor\<close> times the difference of
  the agent's distance to its goal at the reset and after the last step, whatever the
  path; with \<open>pos_shaping_factor = 1\<close> it is that difference. The run never raises.
\<close>

theorem progress_reward_telescopes:
  assumes r: "reset_world_at spawned find_pos env_index s = Inr s0"
    and env: "env_index = None \<or> env_index = Some e"
    and wf: "wf_scenario s0" and dc: "distance_contract (batch_dim s0) get_distance"
    and tr: "trajectory_contract s0 ms"
    and k: "k < length (agents s0)" and e: "e < batch_dim s0"
  shows "\<exists>out. rollout collides get_distance s0 ms = Inr out \<and> length out = length ms
    \<and> sum_list (progress_rewards k e out)
        = pos_shaping_factor (config s0)
          * (goal_distance (agents s0 ! k) ! e
             - goal_distance (agents (final_scenario s0 out) ! k) ! e)
    \<and> (pos_shaping_factor (config s0) = 1 \<longrightarrow>
         sum_list (progress_rewards k e out)
           = goal_distance (agents s0 ! k) ! e
             - goal_distance (agents (final_scenario s0 out) ! k) ! e)"
proof -
  let ?c = "config s0"
  let ?b = "shaping ?c (agents s0 ! k) ! e"
  have bl: "has_baseline s0" by (rule reset_baseline [OF r])
  have b: "shaping_at e (agents s0 ! k) = Some ?b" by (rule reset_sync [OF r wf env k e])
  from rollout_telescope [OF wf bl dc tr k e b, of collides] obtain out b' where
    run: "rollout collides get_distance s0 ms = Inr out" and len: "length out = length ms"
    and wfin: "wf_scenario (final_scenario s0 out)"
      "batch_dim (final_scenario s0 out) = batch_dim s0"
      "length (agents (final_scenario s0 out)) = length (agents s0)"
    and fin: "shaping_at e (agents (final_scenario s0 out) ! k) = Some b'"
    and tot: "sum_list (progress_rewards k e out) = ?b - b'"
    and syn: "ms \<noteq> [] \<longrightarrow> b' = shaping ?c (agents (final_scenario s0 out) ! k) ! e"
    by blast
  have b': "b' = shaping ?c (agents (final_scenario s0 out) ! k) ! e"
  proof (cases "ms = []")
    case True
    with len have "out = []" by simp
    with fin b show ?thesis by (simp add: final_scenario_def)
  next
    case False
    with syn show ?thesis by simp
  qed
  have d0: "?b = goal_distance (agents s0 ! k) ! e * pos_shaping_factor ?c"
    by (rule nth_shaping [OF wf_scenario_nth [OF wf k] e])
  have kf: "k < length (agents (final_scenario s0 out))" using k wfin(3) by simp
  have "wf_agent (batch_dim s0) (agents (final_scenario s0 out) ! k)"
    using wf_scenario_nth [OF wfin(1) kf] by (simp add: wfin(2))
  from nth_shaping [OF this e, of ?c] b'
  have d1: "b' = goal_distance (agents (final_scenario s0 out) ! k) ! e * pos_shaping_factor ?c"
    by simp
  have total: "sum_list (progress_rewards k e out)
        = pos_shaping_factor ?c
          * (goal_distance (agents s0 ! k) ! e
             - goal_distance (agents (final_scenario s0 out) ! k) ! e)"
    unfolding tot d0 d1 by (simp add: algebra_simps)
  then have "pos_shaping_factor ?c = 1 \<longrightarrow>
         sum_list (progress_rewards k e out)
           = goal_distance (agents s0 ! k) ! e
             - goal_distance (agents (final_scenario s0 out) ! k) ! e"
    by simp
  with run len total show ?thesis by blast
qed

theorem progress_reward_telescopes_witness:
  "\<exists>s0. reset_world_at (\<lambda>i. [(real i, 5)]) count_pos (Some 1) pair_world = Inr s0
     \<and> wf_scenario s0 \<and> distance_contract (batch_dim s0) far_apart
     \<and> trajectory_contract s0 [to_goal, to_goal]
     \<and> 0 < length (agents s0) \<and> 1 < batch_dim s0 \<and> pos_shaping_factor (config s0) = 1
     \<and> (\<exists>out. rollout never_collides far_apart s0 [to_goal, to_goal] = Inr out
            \<and> length out = 2
            \<and> sum_list (progress_rewards 0 1 out)
                = goal_distance (agents s0 ! 0) ! 1
                  - goal_distance (agents (final_scenario s0 out) ! 0) ! 1)"
proof -
  let ?sp = "\<lambda>i::nat. [(real i, 5::real)]"
  have "1 \<le> agents_with_same_goal (config pair_world)"
    by (simp add: pair_world_facts pair_config_def BaseNavigationConfig_defaults_def)
  moreover have "list_all (\<lambda>a. pos_shaping a \<noteq> None) (agents pair_world)"
    using pair_world_facts(2) by (simp add: has_baseline_def)
  ultimately obtain s0 where r: "reset_world_at ?sp count_pos (Some 1) pair_world = Inr s0"
    using reset_world_at_Some_total [of 1 pair_world ?sp count_pos]
    by (auto simp: pair_world_facts)
  have wf: "wf_scenario s0" by (rule reset_world_at_Some_wf [OF r pair_world_facts(1)])
  have fr: "batch_dim s0 = 2" "length (agents s0) = 2" "config s0 = pair_config"
    using reset_world_at_frame [OF r] by (simp_all add: pair_world_facts)
  have dc: "distance_contract (batch_dim s0) far_apart"
    by (simp add: fr far_apart_contract)
  have tr: "trajectory_contract s0 [to_goal, to_goal]"
    by (simp add: trajectory_contract_def fr to_goal_def upt_two)
  have k: "0 < length (agents s0)" and e: "1 < batch_dim s0" by (simp_all add: fr)
  have f: "pos_shaping_factor (config s0) = 1"
    by (simp add: fr pair_config_def BaseNavigationConfig_defaults_def)
  from progress_reward_telescopes [OF r _ wf dc tr k e, of never_collides] f
  obtain out where "rollout never_collides far_apart s0 [to_goal, to_goal] = Inr out"
      "length out = 2"
      "sum_list (progress_rewards 0 1 out)
         = goal_distance (agents s0 ! 0) ! 1
           - goal_distance (agents (final_scenario s0 out) ! 0) ! 1"
    by auto
  with r wf dc tr k e f show ?thesis by blast
qed

end
